theory Spec2Isabelle
  imports Main
begin

section \<open>Python values used by \<open>stock_checker.py\<close>\<close>

text \<open>
  Strings are lists of characters with code points below 256. Integers are unbounded.
  A \<open>datetime\<close> is the number of microseconds on the naive local time line, a
  \<open>timedelta\<close> is a number of microseconds.
\<close>

text \<open>\<open>needle in haystack\<close> on strings.\<close>

primrec py_in :: "string \<Rightarrow> string \<Rightarrow> bool" where
  "py_in needle [] = (needle = [])"
| "py_in needle (c # cs) = (take (length needle) (c # cs) = needle \<or> py_in needle cs)"

text \<open>\<open>str(n)\<close> and \<open>%d\<close> for integers.\<close>

definition digit_chars :: string where
  "digit_chars = ''0123456789''"

function str_nat :: "nat \<Rightarrow> string" where
  "str_nat n = (if n < 10 then [digit_chars ! n] else str_nat (n div 10) @ [digit_chars ! (n mod 10)])"
  by pat_completeness auto
termination
  by (relation "measure (\<lambda>n. n)") auto

declare str_nat.simps [simp del]

definition str_int :: "int \<Rightarrow> string" where
  "str_int i = (if i < 0 then CHR ''-'' # str_nat (nat (- i)) else str_nat (nat i))"

text \<open>\<open>s.split(",")\<close>: the pieces between the separators, at least one piece.\<close>

primrec py_split :: "char \<Rightarrow> string \<Rightarrow> string list" where
  "py_split sep [] = [] # []"
| "py_split sep (c # cs) =
     (if c = sep then [] # py_split sep cs
      else (case py_split sep cs of [] \<Rightarrow> [c] # [] | p # ps \<Rightarrow> (c # p) # ps))"

text \<open>\<open>str.isspace\<close> on code points below 256, and \<open>s.strip()\<close>.\<close>

definition py_isspace :: "char \<Rightarrow> bool" where
  "py_isspace c = (let n = (of_char c :: nat) in
     (9 \<le> n \<and> n \<le> 13) \<or> (28 \<le> n \<and> n \<le> 32) \<or> n = 133 \<or> n = 160)"

definition py_strip :: "string \<Rightarrow> string" where
  "py_strip s = rev (dropWhile py_isspace (rev (dropWhile py_isspace s)))"

text \<open>\<open>", ".join(xs)\<close>.\<close>

fun py_join :: "string \<Rightarrow> string list \<Rightarrow> string" where
  "py_join sep [] = []"
| "py_join sep [x] = x"
| "py_join sep (x # y # ys) = x @ sep @ py_join sep (y # ys)"

text \<open>
  An optional string (\<open>os.getenv\<close> may give \<open>None\<close>): its truthiness, where
  \<open>None\<close> and \<open>""\<close> are false, and the string it holds.
\<close>

fun truthy :: "string option \<Rightarrow> bool" where
  "truthy None = False"
| "truthy (Some v) = (v \<noteq> [])"

fun str_of :: "string option \<Rightarrow> string" where
  "str_of None = []"
| "str_of (Some v) = v"

text \<open>\<open>timedelta.days\<close> and \<open>timedelta.seconds\<close> of a normalised timedelta.\<close>

definition usec_per_day :: int where
  "usec_per_day = 86400000000"

definition td_days :: "int \<Rightarrow> int" where
  "td_days td = td div usec_per_day"

definition td_seconds :: "int \<Rightarrow> int" where
  "td_seconds td = (td mod usec_per_day) div 1000000"

text \<open>
  \<open>timedelta(hours=h)\<close>: raises \<open>OverflowError\<close> when the magnitude exceeds
  999999999 days, otherwise the number of microseconds.
\<close>

definition timedelta_hours :: "int \<Rightarrow> int option" where
  "timedelta_hours h =
     (let td = h * 3600000000
      in if td < - 999999999 * usec_per_day \<or> 1000000000 * usec_per_day \<le> td then None
         else Some td)"

section \<open>Exceptions\<close>

text \<open>
  The exception classes that the handlers of the program distinguish, with the message
  of the instance. \<open>RequestException\<close> and \<open>SMTPException\<close> are subclasses of
  \<open>OSError\<close>, as is \<open>TimeoutError\<close>; \<open>OtherError\<close> stands for any class that
  none of the handlers names.
\<close>

datatype exn_class =
  RequestException | SMTPException | OSError | TimeoutError
  | WebDriverException | KeyboardInterrupt | OtherError

datatype exn = Exn exn_class string

fun exn_str :: "exn \<Rightarrow> string" where
  "exn_str (Exn c m) = m"

fun is_subclass :: "exn_class \<Rightarrow> exn_class \<Rightarrow> bool" where
  "is_subclass RequestException OSError = True"
| "is_subclass SMTPException OSError = True"
| "is_subclass TimeoutError OSError = True"
| "is_subclass c d = (c = d)"

fun isinstance :: "exn \<Rightarrow> exn_class \<Rightarrow> bool" where
  "isinstance (Exn c m) d = is_subclass c d"

section \<open>The world the program acts on\<close>

datatype level = INFO | WARNING | ERROR

record smtp_request =
  smtp_host :: string
  smtp_port :: nat
  login_user :: string
  login_password :: string
  mail_from :: string
  mail_to :: "string list"
  header_From :: string
  header_To :: string
  header_Subject :: string
  text_plain :: string

text \<open>
  What a run does to the outside, in order. \<open>PushCall\<close> and \<open>EmailCall\<close> record
  that \<open>send_push\<close> and \<open>send_email\<close> were entered, with their arguments;
  \<open>HttpPost\<close> and \<open>SmtpSession\<close> are the requests that leave the process;
  \<open>ChromeStart\<close> is the call of \<open>webdriver.Chrome\<close> at the start of every check.
\<close>

datatype event =
  Log level string
  | PushCall string string "string option"
  | EmailCall string string "string option"
  | HttpPost string "(string \<times> string) list" nat
  | SmtpSession smtp_request
  | ChromeStart
  | DriverQuit
  | Sleep int

text \<open>
  The configuration read at import time, the live environment variables, and the
  collaborators outside the process: the Pushover endpoint and the mail relay answer a
  request, given everything that happened before it, with success (\<open>None\<close>) or with an
  exception; \<open>strftime\<close> renders a datetime as \<open>%Y-%m-%d %H:%M:%S\<close>.
  \<open>requests_post\<close> stands for \<open>requests.post\<close> followed by
  \<open>raise_for_status\<close>, \<open>smtp_session\<close> for the whole \<open>with\<close> block of
  \<open>send_email\<close>: connecting, \<open>starttls\<close>, \<open>login\<close> and \<open>sendmail\<close>.
  \<open>POLL_INTERVAL\<close>, \<open>MAX_RETRIES\<close> and \<open>HEARTBEAT_HOURS\<close> are the integers
  that the module has converted from the environment.
\<close>

record env =
  PRODUCT_URL :: "string option"
  POLL_INTERVAL :: int
  MAX_RETRIES :: int
  HEARTBEAT_HOURS :: int
  getenv :: "string \<Rightarrow> string option"
  requests_post :: "event list \<Rightarrow> string \<Rightarrow> (string \<times> string) list \<Rightarrow> nat \<Rightarrow> exn option"
  smtp_session :: "event list \<Rightarrow> smtp_request \<Rightarrow> exn option"
  strftime :: "int \<Rightarrow> string"

text \<open>The module's globals, and the effects so far.\<close>

record state =
  running :: bool
  consecutive_failures :: int
  last_heartbeat :: "int option"
  trace :: "event list"

definition emit :: "event \<Rightarrow> state \<Rightarrow> state" where
  "emit e s = s\<lparr>trace := trace s @ [e]\<rparr>"

section \<open>Notification functions\<close>

text \<open>
  A function that returns nothing yields \<open>None\<close> when it returns and \<open>Some e\<close>
  when the exception \<open>e\<close> leaves it, together with the state it leaves behind.
\<close>

definition pushover_url :: string where
  "pushover_url = ''https://api.pushover.net/1/messages.json''"

definition send_push :: "env \<Rightarrow> string \<Rightarrow> string \<Rightarrow> string option \<Rightarrow> state \<Rightarrow> exn option \<times> state" where
  "send_push env message title url s0 =
     (let s = emit (PushCall message title url) s0;
          token = getenv env ''PUSHOVER_TOKEN'';
          user = getenv env ''PUSHOVER_USER''
      in if \<not> truthy token \<or> \<not> truthy user then
           (None, emit (Log WARNING ''Pushover credentials missing, skipping push'') s)
         else
           let payload =
                 [(''token'', str_of token), (''user'', str_of user),
                  (''message'', message), (''title'', title)]
                 @ (if truthy url then [(''url'', str_of url), (''url_title'', ''View Product'')]
                    else []);
               s1 = emit (HttpPost pushover_url payload 5) s
           in (case requests_post env (trace s) pushover_url payload 5 of
                 None \<Rightarrow> (None, emit (Log INFO ''Pushover notification sent'') s1)
               | Some e \<Rightarrow>
                   if isinstance e RequestException
                   then (None, emit (Log ERROR (''Pushover error: '' @ exn_str e)) s1)
                   else (Some e, s1)))"

definition email_recipients :: "env \<Rightarrow> string list" where
  "email_recipients env =
     filter (\<lambda>e. e \<noteq> [])
       (map py_strip
         (py_split CHR '',''
           (case getenv env ''EMAIL_RECIPIENTS'' of None \<Rightarrow> [] | Some v \<Rightarrow> v)))"

definition send_email :: "env \<Rightarrow> string \<Rightarrow> string \<Rightarrow> string option \<Rightarrow> state \<Rightarrow> exn option \<times> state" where
  "send_email env subject body0 url s0 =
     (let s = emit (EmailCall subject body0 url) s0;
          email_user = getenv env ''EMAIL_USER'';
          email_password = getenv env ''EMAIL_PASSWORD'';
          recipients = email_recipients env
      in if \<not> (truthy email_user \<and> truthy email_password \<and> recipients \<noteq> []) then
           (None, emit (Log WARNING ''Email settings incomplete, skipping email'') s)
         else
           let body = (if truthy url then body0 @ ''\<newline>\<newline>Product URL: '' @ str_of url
                       else body0);
               req = \<lparr>smtp_host = ''smtp.gmail.com'', smtp_port = 587,
                      login_user = str_of email_user, login_password = str_of email_password,
                      mail_from = str_of email_user, mail_to = recipients,
                      header_From = str_of email_user, header_To = py_join '', '' recipients,
                      header_Subject = subject, text_plain = body\<rparr>;
               s1 = emit (SmtpSession req) s
           in (case smtp_session env (trace s) req of
                 None \<Rightarrow> (None, emit (Log INFO ''Email notification sent'') s1)
               | Some e \<Rightarrow>
                   if isinstance e SMTPException \<or> isinstance e OSError
                   then (None, emit (Log ERROR (''Email error: '' @ exn_str e)) s1)
                   else (Some e, s1)))"

section \<open>Signal handling\<close>

definition handle_shutdown :: "env \<Rightarrow> int \<Rightarrow> state \<Rightarrow> exn option \<times> state" where
  "handle_shutdown env signum s0 =
     (let s = emit (Log INFO (''Received signal '' @ str_int signum
                                @ '', initiating graceful shutdown...'')) s0
      in case send_push env
                (''Microcenter Stock Checker service is shutting down gracefully.\<newline>''
                 @ ''Monitoring will stop after current check completes.'')
                ''Service Stopping'' (PRODUCT_URL env) s of
           (Some e, s1) \<Rightarrow> (Some e, s1)
         | (None, s1) \<Rightarrow>
             (case send_email env
                     ''Microcenter Stock Checker Service Stopping''
                     (''The Microcenter Stock Checker service is being shut down gracefully.\<newline>''
                      @ ''Monitoring will stop after the current check completes.'')
                     (PRODUCT_URL env) s1 of
                (Some e, s2) \<Rightarrow> (Some e, s2)
              | (None, s2) \<Rightarrow> (None, s2\<lparr>running := False\<rparr>)))"

text \<open>
  The interpreter runs the handler in the main thread, once for each signal that
  arrived, at the point where the main thread is; an exception that leaves the handler
  is raised at that point.
\<close>

fun deliver_signals :: "env \<Rightarrow> int list \<Rightarrow> state \<Rightarrow> exn option \<times> state" where
  "deliver_signals env [] s = (None, s)"
| "deliver_signals env (signum # sigs) s =
     (case handle_shutdown env signum s of
        (Some e, s1) \<Rightarrow> (Some e, s1)
      | (None, s1) \<Rightarrow> deliver_signals env sigs s1)"

section \<open>One check cycle\<close>

text \<open>
  What the collaborators give one iteration of the main loop: the exception that
  creating the browser raises, if any; the outcome of \<open>set_store_cookie\<close> and
  \<open>driver.page_source\<close>, which is the page text or an exception; the readings of
  \<open>datetime.now()\<close> in source order; the exception that the platform makes
  \<open>time.sleep\<close> raise for a length it could have taken, if any; and the signals
  that arrive while the page is fetched and while the loop sleeps.
\<close>

datatype fetch_result =
  FetchRaises exn
  | Page string

record cycle =
  chrome :: "exn option"
  fetch :: fetch_result
  sig_fetch :: "int list"
  now_check :: int
  now_uptime :: int
  now_message :: int
  now_reset :: int
  sleep_error :: "exn option"
  sig_sleep :: "int list"

definition in_stock_marker :: string where
  "in_stock_marker = CHR 0x27 # ''inStock':'True'' @ [CHR 0x27]"

definition out_of_stock_marker :: string where
  "out_of_stock_marker = CHR 0x27 # ''inStock':'False'' @ [CHR 0x27]"

text \<open>
  The body of the \<open>try\<close> block of \<open>check_stock\<close>: \<open>Inr (Some b)\<close> when it executes
  \<open>return b\<close>, \<open>Inr None\<close> when it runs to its end, \<open>Inl e\<close> when \<open>e\<close> is raised
  in it.
\<close>

definition check_stock_try :: "env \<Rightarrow> cycle \<Rightarrow> state \<Rightarrow> (exn + bool option) \<times> state" where
  "check_stock_try env c s0 =
     (case deliver_signals env (sig_fetch c) s0 of
        (Some e, s) \<Rightarrow> (Inl e, s)
      | (None, s) \<Rightarrow>
     (case fetch c of
        FetchRaises e \<Rightarrow> (Inl e, s)
      | Page page \<Rightarrow>
          if py_in in_stock_marker page then
            (let s1 = emit (Log INFO ''Status: In Stock!'') (s\<lparr>consecutive_failures := 0\<rparr>)
             in case send_push env ''Product is in stock! Click to view the product page.''
                       ''In Stock'' (PRODUCT_URL env) s1 of
                  (Some e, s2) \<Rightarrow> (Inl e, s2)
                | (None, s2) \<Rightarrow>
                    (case send_email env ''Product In Stock''
                            ''Your product is now available! Click the link below to view the product page.''
                            (PRODUCT_URL env) s2 of
                       (Some e, s3) \<Rightarrow> (Inl e, s3)
                     | (None, s3) \<Rightarrow> (Inr (Some True), s3)))
          else if py_in out_of_stock_marker page then
            (Inr (Some False),
             emit (Log INFO ''Status: Out of Stock'') (s\<lparr>consecutive_failures := 0\<rparr>))
          else
            (let n = consecutive_failures s + 1;
                 s1 = emit (Log WARNING (''Status: Unknown (Failure #'' @ str_int n @ '')''))
                        (s\<lparr>consecutive_failures := n\<rparr>)
             in if n \<ge> MAX_RETRIES env then
                  (case send_push env
                          (''Stock check returned unknown status '' @ str_int n
                           @ '' times in a row.\<newline>'' @ ''Click to verify manually.'')
                          ''Checker Error'' (PRODUCT_URL env) s1 of
                     (Some e, s2) \<Rightarrow> (Inl e, s2)
                   | (None, s2) \<Rightarrow>
                       (case send_email env ''Stock Checker Error''
                               (''Unknown stock status detected '' @ str_int n
                                @ '' times in a row.\<newline>''
                                @ ''Please verify manually using the link below.'')
                               (PRODUCT_URL env) s2 of
                          (Some e, s3) \<Rightarrow> (Inl e, s3)
                        | (None, s3) \<Rightarrow> (Inr None, s3)))
                else (Inr None, s1))))"

text \<open>The handler \<open>except (WebDriverException, TimeoutError) as e\<close>.\<close>

definition check_stock_except :: "env \<Rightarrow> exn \<Rightarrow> state \<Rightarrow> exn option \<times> state" where
  "check_stock_except env e s =
     (let n = consecutive_failures s + 1;
          s1 = emit (Log ERROR (''Checker exception: '' @ exn_str e
                                  @ '' (Failure #'' @ str_int n @ '')''))
                 (s\<lparr>consecutive_failures := n\<rparr>)
      in if n \<ge> MAX_RETRIES env then
           (case send_push env
                   (''Checker failed '' @ str_int n @ '' times in a row: '' @ exn_str e
                    @ ''\<newline>'' @ ''Click to check manually.'')
                   ''Checker Exception'' (PRODUCT_URL env) s1 of
              (Some e', s2) \<Rightarrow> (Some e', s2)
            | (None, s2) \<Rightarrow>
                send_email env ''Stock Checker Exception''
                  (''The stock checker encountered '' @ str_int n @ '' consecutive errors:\<newline>''
                   @ exn_str e @ ''\<newline>\<newline>''
                   @ ''Please check manually using the link below.'')
                  (PRODUCT_URL env) s2)
         else (None, s1))"

text \<open>
  \<open>check_stock\<close>: the browser is created before the \<open>try\<close>, so an exception of its
  constructor leaves the function at once; the \<open>finally\<close> clause quits the browser on
  every way out of the \<open>try\<close>; the function returns \<open>False\<close> after the statement.
  The calls of \<open>logging\<close> and \<open>driver.quit()\<close> are taken to return.
\<close>

definition check_stock :: "env \<Rightarrow> cycle \<Rightarrow> state \<Rightarrow> (exn + bool) \<times> state" where
  "check_stock env c s0 =
     (case chrome c of
        Some e \<Rightarrow> (Inl e, emit ChromeStart s0)
      | None \<Rightarrow>
          (case check_stock_try env c (emit ChromeStart s0) of
             (Inr (Some b), s) \<Rightarrow> (Inr b, emit DriverQuit s)
           | (Inr None, s) \<Rightarrow> (Inr False, emit DriverQuit s)
           | (Inl e, s) \<Rightarrow>
               if isinstance e WebDriverException \<or> isinstance e TimeoutError then
                 (case check_stock_except env e s of
                    (Some e', s1) \<Rightarrow> (Inl e', emit DriverQuit s1)
                  | (None, s1) \<Rightarrow> (Inr False, emit DriverQuit s1))
               else (Inl e, emit DriverQuit s)))"

section \<open>Heartbeat\<close>

definition send_heartbeat :: "env \<Rightarrow> cycle \<Rightarrow> state \<Rightarrow> exn option \<times> state" where
  "send_heartbeat env c s =
     (let uptime = (case last_heartbeat s of Some lh \<Rightarrow> now_uptime c - lh | None \<Rightarrow> 0);
          message = ''Microcenter Stock Checker service is running normally.\<newline>''
                    @ ''Uptime: '' @ str_int (td_days uptime) @ '' days, ''
                    @ str_int (td_seconds uptime div 3600) @ '' hours\<newline>''
                    @ ''Last check: '' @ strftime env (now_message c)
      in case send_push env message ''Service Heartbeat'' (PRODUCT_URL env) s of
           (Some e, s1) \<Rightarrow> (Some e, s1)
         | (None, s1) \<Rightarrow>
             (case send_email env ''Microcenter Stock Checker Service Heartbeat'' message
                     (PRODUCT_URL env) s1 of
                (Some e, s2) \<Rightarrow> (Some e, s2)
              | (None, s2) \<Rightarrow> (None, s2\<lparr>last_heartbeat := Some (now_reset c)\<rparr>)))"

section \<open>The main loop\<close>

text \<open>
  Lines 281 and 282 of \<open>main\<close>: the test whether a heartbeat is due, and the heartbeat.
  Subtracting \<open>None\<close> from a datetime raises \<open>TypeError\<close>.
\<close>

definition heartbeat_if_due :: "env \<Rightarrow> cycle \<Rightarrow> state \<Rightarrow> exn option \<times> state" where
  "heartbeat_if_due env c s =
     (case last_heartbeat s of
        None \<Rightarrow> (Some (Exn OtherError ''TypeError''), s)
      | Some lh \<Rightarrow>
          (case timedelta_hours (HEARTBEAT_HOURS env) of
             None \<Rightarrow> (Some (Exn OtherError ''OverflowError''), s)
           | Some interval \<Rightarrow>
               if now_check c - lh > interval then send_heartbeat env c s else (None, s)))"

text \<open>
  \<open>time.sleep(POLL_INTERVAL)\<close>: a negative length raises \<open>ValueError\<close>, and a
  length whose nanoseconds do not fit 64 bits raises \<open>OverflowError\<close>. A length in
  between is handed to the platform, which raises \<open>OSError\<close> when the deadline, the
  length added to its monotonic clock, is more than it can hold: \<open>sleep_error\<close> is
  that answer. A signal that arrives during the sleep runs the handler, and the sleep
  then goes on to its full length unless the handler raised.
\<close>

definition max_sleep :: int where
  "max_sleep = 9223372036"

definition sleep_poll :: "env \<Rightarrow> cycle \<Rightarrow> state \<Rightarrow> exn option \<times> state" where
  "sleep_poll env c s =
     (if POLL_INTERVAL env < 0 then (Some (Exn OtherError ''ValueError''), s)
      else if max_sleep < POLL_INTERVAL env then (Some (Exn OtherError ''OverflowError''), s)
      else (case sleep_error c of
              Some e \<Rightarrow> (Some e, s)
            | None \<Rightarrow> deliver_signals env (sig_sleep c) (emit (Sleep (POLL_INTERVAL env)) s)))"

text \<open>
  The \<open>while running\<close> loop of \<open>main\<close>, given the inputs of the iterations to come.
  \<open>StillRunning\<close>: the inputs are used up and the loop has not left; \<open>Exited\<close>: the
  loop has left by its test or by \<open>break\<close>; \<open>Raised e\<close>: \<open>e\<close> has left the loop.
\<close>

datatype loop_status = StillRunning | Exited | Raised exn

fun main_loop :: "env \<Rightarrow> cycle list \<Rightarrow> state \<Rightarrow> loop_status \<times> state" where
  "main_loop env [] s = (if running s then (StillRunning, s) else (Exited, s))"
| "main_loop env (c # cs) s =
     (if \<not> running s then (Exited, s)
      else case check_stock env c s of
             (Inl e, s1) \<Rightarrow> (Raised e, s1)
           | (Inr True, s1) \<Rightarrow> (Exited, s1)
           | (Inr False, s1) \<Rightarrow>
               (case heartbeat_if_due env c s1 of
                  (Some e, s2) \<Rightarrow> (Raised e, s2)
                | (None, s2) \<Rightarrow>
                    (case sleep_poll env c s2 of
                       (Some e, s3) \<Rightarrow> (Raised e, s3)
                     | (None, s3) \<Rightarrow> main_loop env cs s3)))"

text \<open>The \<open>finally\<close> clause of \<open>main\<close>.\<close>

definition main_finally :: "env \<Rightarrow> state \<Rightarrow> exn option \<times> state" where
  "main_finally env s0 =
     (let s = emit (Log INFO ''Microcenter Stock Checker stopped'') s0
      in case send_push env
                (''Microcenter Stock Checker service has stopped.\<newline>''
                 @ ''Monitoring is no longer active.'')
                ''Service Stopped'' (PRODUCT_URL env) s of
           (Some e, s1) \<Rightarrow> (Some e, s1)
         | (None, s1) \<Rightarrow>
             send_email env ''Microcenter Stock Checker Service Stopped''
               (''The Microcenter Stock Checker service has stopped.\<newline>''
                @ ''Monitoring is no longer active.'')
               (PRODUCT_URL env) s1)"

text \<open>
  The statements of \<open>main\<close> before its \<open>try\<close>, given the reading of
  \<open>datetime.now()\<close>: an exception of the startup notifications leaves \<open>main\<close>
  without the \<open>finally\<close> clause.
\<close>

definition main_startup :: "env \<Rightarrow> int \<Rightarrow> state \<Rightarrow> exn option \<times> state" where
  "main_startup env start_time s0 =
     (let s = (emit (Log INFO ''Starting Microcenter Stock Checker loop'') s0)
                \<lparr>last_heartbeat := Some start_time\<rparr>
      in case send_push env
                (''Microcenter Stock Checker service has started successfully.\<newline>''
                 @ ''Click to view the monitored product.'')
                ''Service Started'' (PRODUCT_URL env) s of
           (Some e, s1) \<Rightarrow> (Some e, s1)
         | (None, s1) \<Rightarrow>
             send_email env ''Microcenter Stock Checker Service Started''
               (''The Microcenter Stock Checker service has started successfully.\<newline>''
                @ ''Monitoring the following product:'')
               (PRODUCT_URL env) s1)"

text \<open>
  \<open>main\<close>, given the reading of \<open>datetime.now()\<close> at its start and the inputs of the
  iterations. An exception raised in the \<open>finally\<close> clause replaces the one that was
  on its way.
\<close>

definition main :: "env \<Rightarrow> int \<Rightarrow> cycle list \<Rightarrow> state \<Rightarrow> loop_status \<times> state" where
  "main env start_time cs s0 =
     (case main_startup env start_time s0 of
        (Some e, s2) \<Rightarrow> (Raised e, s2)
      | (None, s2) \<Rightarrow>
     (case main_loop env cs s2 of
        (StillRunning, s3) \<Rightarrow> (StillRunning, s3)
      | (Exited, s3) \<Rightarrow>
          (case main_finally env s3 of
             (Some e', s4) \<Rightarrow> (Raised e', s4)
           | (None, s4) \<Rightarrow> (Exited, s4))
      | (Raised e, s3) \<Rightarrow>
          if isinstance e KeyboardInterrupt then
            (case main_finally env
                    (emit (Log INFO ''Received keyboard interrupt, stopping...'') s3) of
               (Some e', s4) \<Rightarrow> (Raised e', s4)
             | (None, s4) \<Rightarrow> (Exited, s4))
          else
            (case main_finally env s3 of
               (Some e', s4) \<Rightarrow> (Raised e', s4)
             | (None, s4) \<Rightarrow> (Raised e, s4))))"

text \<open>The globals as the module sets them when it is loaded.\<close>

definition initial_state :: state where
  "initial_state = \<lparr>running = True, consecutive_failures = 0, last_heartbeat = None, trace = []\<rparr>"

section \<open>Observations on runs\<close>

text \<open>The events that a state \<open>s'\<close> reached from \<open>s\<close> has added to the trace.\<close>

definition new_events :: "state \<Rightarrow> state \<Rightarrow> event list" where
  "new_events s s' = drop (length (trace s)) (trace s')"

text \<open>The notifications of a trace: the calls of \<open>send_push\<close> and \<open>send_email\<close>.\<close>

fun is_call :: "event \<Rightarrow> bool" where
  "is_call (PushCall m t u) = True"
| "is_call (EmailCall sj b u) = True"
| "is_call _ = False"

definition calls :: "event list \<Rightarrow> event list" where
  "calls evs = filter is_call evs"

text \<open>
  The collaborators raise nothing but transport errors: the Pushover request only
  \<open>RequestException\<close>, the mail session only \<open>SMTPException\<close> or \<open>OSError\<close>.
\<close>

definition transport_errors_only :: "env \<Rightarrow> bool" where
  "transport_errors_only env \<longleftrightarrow>
     (\<forall>h u p t e. requests_post env h u p t = Some e \<longrightarrow> isinstance e RequestException)
     \<and> (\<forall>h r e. smtp_session env h r = Some e \<longrightarrow> isinstance e SMTPException \<or> isinstance e OSError)"

text \<open>
  The sleep of a cycle returns: the poll interval is a length that \<open>time.sleep\<close>
  takes, and the platform raises nothing for it.
\<close>

definition sleep_returns :: "env \<Rightarrow> cycle \<Rightarrow> bool" where
  "sleep_returns env c =
     (0 \<le> POLL_INTERVAL env \<and> POLL_INTERVAL env \<le> max_sleep \<and> sleep_error c = None)"

text \<open>The exceptions that the \<open>except\<close> clause of \<open>check_stock\<close> names.\<close>

definition caught_by_check_stock :: "exn \<Rightarrow> bool" where
  "caught_by_check_stock e = (isinstance e WebDriverException \<or> isinstance e TimeoutError)"

text \<open>
  A cycle whose browser starts and whose fetch gives a page or an exception that
  \<open>check_stock\<close> catches; and among these the failing cycles, where the page holds
  neither marker or the fetch raised.
\<close>

definition fetch_handled :: "cycle \<Rightarrow> bool" where
  "fetch_handled c =
     (chrome c = None \<and>
      (case fetch c of Page page \<Rightarrow> True | FetchRaises e \<Rightarrow> caught_by_check_stock e))"

definition failing_cycle :: "cycle \<Rightarrow> bool" where
  "failing_cycle c =
     (chrome c = None \<and>
      (case fetch c of
         Page page \<Rightarrow> \<not> py_in in_stock_marker page \<and> \<not> py_in out_of_stock_marker page
       | FetchRaises e \<Rightarrow> caught_by_check_stock e))"

text \<open>The events that each function adds.\<close>

definition push_events :: "env \<Rightarrow> string \<Rightarrow> string \<Rightarrow> string option \<Rightarrow> state \<Rightarrow> event list" where
  "push_events env m t u s = new_events s (snd (send_push env m t u s))"

definition email_events :: "env \<Rightarrow> string \<Rightarrow> string \<Rightarrow> string option \<Rightarrow> state \<Rightarrow> event list" where
  "email_events env sj b u s = new_events s (snd (send_email env sj b u s))"

definition shutdown_events :: "env \<Rightarrow> int \<Rightarrow> state \<Rightarrow> event list" where
  "shutdown_events env signum s = new_events s (snd (handle_shutdown env signum s))"

definition signal_events :: "env \<Rightarrow> int list \<Rightarrow> state \<Rightarrow> event list" where
  "signal_events env sigs s = new_events s (snd (deliver_signals env sigs s))"

definition check_events :: "env \<Rightarrow> cycle \<Rightarrow> state \<Rightarrow> event list" where
  "check_events env c s = new_events s (snd (check_stock env c s))"

definition heartbeat_events :: "env \<Rightarrow> cycle \<Rightarrow> state \<Rightarrow> event list" where
  "heartbeat_events env c s = new_events s (snd (heartbeat_if_due env c s))"

definition sleep_events :: "env \<Rightarrow> cycle \<Rightarrow> state \<Rightarrow> event list" where
  "sleep_events env c s = new_events s (snd (sleep_poll env c s))"

text \<open>The notification pairs of the program, as the calls that make them.\<close>

definition started_calls :: "env \<Rightarrow> event list" where
  "started_calls env =
     [PushCall (''Microcenter Stock Checker service has started successfully.\<newline>''
                @ ''Click to view the monitored product.'')
        ''Service Started'' (PRODUCT_URL env),
      EmailCall ''Microcenter Stock Checker Service Started''
        (''The Microcenter Stock Checker service has started successfully.\<newline>''
         @ ''Monitoring the following product:'')
        (PRODUCT_URL env)]"

definition stopping_calls :: "env \<Rightarrow> event list" where
  "stopping_calls env =
     [PushCall (''Microcenter Stock Checker service is shutting down gracefully.\<newline>''
                @ ''Monitoring will stop after current check completes.'')
        ''Service Stopping'' (PRODUCT_URL env),
      EmailCall ''Microcenter Stock Checker Service Stopping''
        (''The Microcenter Stock Checker service is being shut down gracefully.\<newline>''
         @ ''Monitoring will stop after the current check completes.'')
        (PRODUCT_URL env)]"

definition stopped_calls :: "env \<Rightarrow> event list" where
  "stopped_calls env =
     [PushCall (''Microcenter Stock Checker service has stopped.\<newline>''
                @ ''Monitoring is no longer active.'')
        ''Service Stopped'' (PRODUCT_URL env),
      EmailCall ''Microcenter Stock Checker Service Stopped''
        (''The Microcenter Stock Checker service has stopped.\<newline>''
         @ ''Monitoring is no longer active.'')
        (PRODUCT_URL env)]"

definition signal_calls :: "env \<Rightarrow> int list \<Rightarrow> event list" where
  "signal_calls env sigs = concat (replicate (length sigs) (stopping_calls env))"

definition in_stock_calls :: "env \<Rightarrow> event list" where
  "in_stock_calls env =
     [PushCall ''Product is in stock! Click to view the product page.'' ''In Stock''
        (PRODUCT_URL env),
      EmailCall ''Product In Stock''
        ''Your product is now available! Click the link below to view the product page.''
        (PRODUCT_URL env)]"

definition unknown_calls :: "env \<Rightarrow> int \<Rightarrow> event list" where
  "unknown_calls env n =
     [PushCall (''Stock check returned unknown status '' @ str_int n
                @ '' times in a row.\<newline>'' @ ''Click to verify manually.'')
        ''Checker Error'' (PRODUCT_URL env),
      EmailCall ''Stock Checker Error''
        (''Unknown stock status detected '' @ str_int n @ '' times in a row.\<newline>''
         @ ''Please verify manually using the link below.'')
        (PRODUCT_URL env)]"

definition exception_calls :: "env \<Rightarrow> int \<Rightarrow> exn \<Rightarrow> event list" where
  "exception_calls env n e =
     [PushCall (''Checker failed '' @ str_int n @ '' times in a row: '' @ exn_str e
                @ ''\<newline>'' @ ''Click to check manually.'')
        ''Checker Exception'' (PRODUCT_URL env),
      EmailCall ''Stock Checker Exception''
        (''The stock checker encountered '' @ str_int n @ '' consecutive errors:\<newline>''
         @ exn_str e @ ''\<newline>\<newline>'' @ ''Please check manually using the link below.'')
        (PRODUCT_URL env)]"

definition heartbeat_message :: "env \<Rightarrow> int \<Rightarrow> int \<Rightarrow> string" where
  "heartbeat_message env uptime now =
     ''Microcenter Stock Checker service is running normally.\<newline>''
     @ ''Uptime: '' @ str_int (td_days uptime) @ '' days, ''
     @ str_int (td_seconds uptime div 3600) @ '' hours\<newline>''
     @ ''Last check: '' @ strftime env now"

definition heartbeat_calls :: "env \<Rightarrow> int \<Rightarrow> int \<Rightarrow> event list" where
  "heartbeat_calls env uptime now =
     [PushCall (heartbeat_message env uptime now) ''Service Heartbeat'' (PRODUCT_URL env),
      EmailCall ''Microcenter Stock Checker Service Heartbeat'' (heartbeat_message env uptime now)
        (PRODUCT_URL env)]"

text \<open>
  The error notifications of \<open>check_stock\<close>, by the title of the push and the subject
  of the email, and how many a trace holds.
\<close>

fun is_error_push :: "event \<Rightarrow> bool" where
  "is_error_push (PushCall m t u) = (t = ''Checker Error'' \<or> t = ''Checker Exception'')"
| "is_error_push _ = False"

fun is_error_email :: "event \<Rightarrow> bool" where
  "is_error_email (EmailCall sj b u) = (sj = ''Stock Checker Error'' \<or> sj = ''Stock Checker Exception'')"
| "is_error_email _ = False"

definition error_pushes :: "event list \<Rightarrow> nat" where
  "error_pushes evs = length (filter is_error_push evs)"

definition error_emails :: "event list \<Rightarrow> nat" where
  "error_emails evs = length (filter is_error_email evs)"

text \<open>A cycle during which no signal arrives.\<close>

definition signal_free :: "cycle \<Rightarrow> bool" where
  "signal_free c = (sig_fetch c = [] \<and> sig_sleep c = [])"

text \<open>
  Of the cycles 1 to \<open>n\<close> of a run of failing cycles, the number of those on which
  the counter, \<open>c\<close> before the first cycle, has reached the threshold \<open>m\<close>.
\<close>

definition cycles_at_threshold :: "int \<Rightarrow> int \<Rightarrow> nat \<Rightarrow> nat" where
  "cycles_at_threshold m c n = length (filter (\<lambda>k. m \<le> c + int k) [1..<Suc n])"

text \<open>
  The notifications about the end of the service: the pair titled \<open>Service Stopped\<close>
  of \<open>main\<close>, and these together with the pair titled \<open>Service Stopping\<close> of the
  signal handler. The heartbeat pushes.
\<close>

fun is_stopped_call :: "event \<Rightarrow> bool" where
  "is_stopped_call (PushCall m t u) = (t = ''Service Stopped'')"
| "is_stopped_call (EmailCall sj b u) = (sj = ''Microcenter Stock Checker Service Stopped'')"
| "is_stopped_call _ = False"

fun is_stop_call :: "event \<Rightarrow> bool" where
  "is_stop_call (PushCall m t u) = (t = ''Service Stopping'' \<or> t = ''Service Stopped'')"
| "is_stop_call (EmailCall sj b u)
     = (sj = ''Microcenter Stock Checker Service Stopping''
        \<or> sj = ''Microcenter Stock Checker Service Stopped'')"
| "is_stop_call _ = False"

fun is_heartbeat_push :: "event \<Rightarrow> bool" where
  "is_heartbeat_push (PushCall m t u) = (t = ''Service Heartbeat'')"
| "is_heartbeat_push _ = False"

text \<open>The events of a trace that follow its first stop notification.\<close>

fun after_stop_call :: "event list \<Rightarrow> event list" where
  "after_stop_call [] = []"
| "after_stop_call (ev # evs) = (if is_stop_call ev then evs else after_stop_call evs)"

definition startup_events :: "env \<Rightarrow> int \<Rightarrow> state \<Rightarrow> event list" where
  "startup_events env start_time s = new_events s (snd (main_startup env start_time s))"

definition finally_events :: "env \<Rightarrow> state \<Rightarrow> event list" where
  "finally_events env s = new_events s (snd (main_finally env s))"

section \<open>Concrete inputs\<close>

text \<open>The environment of the fixture \<open>setup_env\<close> of \<open>tests/test_stock_checker.py\<close>.\<close>

definition test_getenv :: "string \<Rightarrow> string option" where
  "test_getenv k =
     (if k = ''PUSHOVER_TOKEN'' then Some ''test_token''
      else if k = ''PUSHOVER_USER'' then Some ''test_user''
      else if k = ''EMAIL_USER'' then Some ''a@b.com''
      else if k = ''EMAIL_PASSWORD'' then Some ''pw''
      else if k = ''EMAIL_RECIPIENTS'' then Some ''c@d.com,e@f.com''
      else None)"

definition test_env :: env where
  "test_env = \<lparr>PRODUCT_URL = Some ''http://test.url'', POLL_INTERVAL = 60, MAX_RETRIES = 3,
     HEARTBEAT_HOURS = 24, getenv = test_getenv,
     requests_post = (\<lambda>h u p t. None), smtp_session = (\<lambda>h r. None),
     strftime = (\<lambda>t. ''2025-01-01 00:00:00'')\<rparr>"


definition no_credentials_env :: env where
  "no_credentials_env = test_env\<lparr>getenv := (\<lambda>k. None)\<rparr>"

definition page_cycle :: "string \<Rightarrow> cycle" where
  "page_cycle page = \<lparr>chrome = None, fetch = Page page, sig_fetch = [], now_check = 0,
     now_uptime = 0, now_message = 0, now_reset = 0, sleep_error = None, sig_sleep = []\<rparr>"

text \<open>Inputs of single cycles: a driver error, and a page that holds both markers.\<close>

definition driver_error :: exn where
  "driver_error = Exn WebDriverException ''unknown error: net::ERR_NAME_NOT_RESOLVED''"

definition error_cycle :: "exn \<Rightarrow> cycle" where
  "error_cycle e = (page_cycle [])\<lparr>fetch := FetchRaises e\<rparr>"

definition both_markers_page :: string where
  "both_markers_page = ''{'' @ out_of_stock_marker @ '','' @ in_stock_marker @ ''}''"

text \<open>
  The pages of \<open>test_consecutive_failures\<close>, whose driver gives an empty page, and
  the globals once \<open>main\<close> has set \<open>last_heartbeat\<close>.
\<close>

definition unknown_run :: "nat \<Rightarrow> cycle list" where
  "unknown_run n = replicate n (page_cycle [])"

definition started_state :: state where
  "started_state = initial_state\<lparr>last_heartbeat := Some 0\<rparr>"

text \<open>
  A cycle with an unknown page during whose fetch SIGTERM arrives; out-of-stock cycles
  whose clock readings are all \<open>now\<close>; a cycle whose fetch raises an exception that
  \<open>check_stock\<close> does not catch; cycles whose browser does not start, with a
  \<open>WebDriverException\<close> and with another exception; a run in which empty pages and
  driver errors of the fetch alternate; the test environment without a target URL.
\<close>

definition sigterm_cycle :: cycle where
  "sigterm_cycle = (page_cycle ''<html></html>'')\<lparr>sig_fetch := [15]\<rparr>"

definition heartbeat_cycle :: "int \<Rightarrow> cycle" where
  "heartbeat_cycle now = (page_cycle out_of_stock_marker)
     \<lparr>now_check := now, now_uptime := now, now_message := now, now_reset := now\<rparr>"

definition hours :: "int \<Rightarrow> int" where
  "hours h = h * 3600000000"

definition connection_error :: exn where
  "connection_error = Exn OtherError ''MaxRetryError: connection refused''"

definition uncaught_cycle :: cycle where
  "uncaught_cycle = error_cycle connection_error"

definition browser_failure :: exn where
  "browser_failure = Exn WebDriverException ''session not created''"

definition browser_failure_cycle :: cycle where
  "browser_failure_cycle = (page_cycle [])\<lparr>chrome := Some browser_failure\<rparr>"

definition mixed_run :: "cycle list" where
  "mixed_run = [page_cycle [], error_cycle driver_error, page_cycle [], error_cycle driver_error]"

definition crash_cycle :: cycle where
  "crash_cycle = (page_cycle [])\<lparr>chrome := Some (Exn OtherError ''chromedriver not found'')\<rparr>"

definition no_url_env :: env where
  "no_url_env = test_env\<lparr>PRODUCT_URL := None\<rparr>"

section \<open>The notification functions\<close>

lemma calls_append [simp]: "calls (xs @ ys) = calls xs @ calls ys"
  by (simp add: calls_def)

lemma calls_Nil [simp]: "calls [] = []"
  by (simp add: calls_def)

lemma calls_Cons [simp]: "calls (e # evs) = (if is_call e then e # calls evs else calls evs)"
  by (simp add: calls_def)

lemma snd_send_push:
  "snd (send_push env m t u s) = s\<lparr>trace := trace s @ push_events env m t u s\<rparr>"
  by (simp add: push_events_def send_push_def emit_def Let_def new_events_def split: option.splits)

lemma calls_push_events:
  "calls (push_events env m t u s) = [PushCall m t u]"
  by (simp add: push_events_def send_push_def emit_def Let_def new_events_def split: option.splits)

lemma snd_send_email:
  "snd (send_email env sj b u s) = s\<lparr>trace := trace s @ email_events env sj b u s\<rparr>"
  by (simp add: email_events_def send_email_def emit_def Let_def new_events_def split: option.splits)

lemma calls_email_events:
  "calls (email_events env sj b u s) = [EmailCall sj b u]"
  by (simp add: email_events_def send_email_def emit_def Let_def new_events_def split: option.splits)

lemma send_push_returns:
  "transport_errors_only env \<Longrightarrow> fst (send_push env m t u s) = None"
  by (auto simp: send_push_def transport_errors_only_def Let_def split: option.splits)

lemma send_email_returns:
  "transport_errors_only env \<Longrightarrow> fst (send_email env sj b u s) = None"
  by (auto simp: send_email_def transport_errors_only_def Let_def split: option.splits)

lemma send_push_ok:
  "transport_errors_only env \<Longrightarrow>
     send_push env m t u s = (None, s\<lparr>trace := trace s @ push_events env m t u s\<rparr>)"
  using send_push_returns [of env m t u s] snd_send_push [of env m t u s]
  by (metis prod.collapse)

lemma send_email_ok:
  "transport_errors_only env \<Longrightarrow>
     send_email env sj b u s = (None, s\<lparr>trace := trace s @ email_events env sj b u s\<rparr>)"
  using send_email_returns [of env sj b u s] snd_send_email [of env sj b u s]
  by (metis prod.collapse)

lemmas notify_ok = send_push_ok send_email_ok calls_push_events calls_email_events

lemma test_env_transport: "transport_errors_only test_env"
  by (simp add: transport_errors_only_def test_env_def)




text \<open>The equations that evaluate a run on concrete inputs.\<close>

lemmas run_defs = main_def main_startup_def main_finally_def main_loop.simps check_stock_def check_stock_try_def
  check_stock_except_def heartbeat_if_due_def send_heartbeat_def sleep_poll_def max_sleep_def
  deliver_signals.simps handle_shutdown_def send_push_def send_email_def email_recipients_def
  emit_def Let_def pushover_url_def py_strip_def py_isspace_def
  str_int_def str_nat.simps digit_chars_def timedelta_hours_def usec_per_day_def td_days_def
  td_seconds_def in_stock_marker_def out_of_stock_marker_def

lemmas input_defs = test_env_def test_getenv_def page_cycle_def initial_state_def sigterm_cycle_def
  no_credentials_env_def heartbeat_cycle_def hours_def no_url_env_def crash_cycle_def
  error_cycle_def driver_error_def connection_error_def uncaught_cycle_def browser_failure_def
  browser_failure_cycle_def
  started_state_def

section \<open>The handler, one check, the heartbeat and the sleep\<close>

lemma handle_shutdown_ok:
  assumes "transport_errors_only env"
  shows "handle_shutdown env signum s
           = (None, s\<lparr>running := False, trace := trace s @ shutdown_events env signum s\<rparr>)"
    and "calls (shutdown_events env signum s) = stopping_calls env"
  by (simp_all add: shutdown_events_def new_events_def handle_shutdown_def Let_def emit_def
        notify_ok assms stopping_calls_def)

lemma deliver_signals_ok:
  assumes "transport_errors_only env"
  shows "deliver_signals env sigs s
           = (None, s\<lparr>running := running s \<and> sigs = [],
                        trace := trace s @ signal_events env sigs s\<rparr>)
         \<and> calls (signal_events env sigs s) = signal_calls env sigs"
proof (induction sigs arbitrary: s)
  case Nil
  show ?case by (simp add: signal_events_def new_events_def signal_calls_def)
next
  case (Cons signum sigs)
  let ?s1 = "s\<lparr>running := False, trace := trace s @ shutdown_events env signum s\<rparr>"
  note ih = Cons.IH [of ?s1]
  have d: "deliver_signals env (signum # sigs) s
             = (None, s\<lparr>running := False,
                    trace := trace s @ shutdown_events env signum s @ signal_events env sigs ?s1\<rparr>)"
    using ih by (simp add: handle_shutdown_ok [OF assms])
  have e: "signal_events env (signum # sigs) s
             = shutdown_events env signum s @ signal_events env sigs ?s1"
    unfolding signal_events_def [of env "signum # sigs"] d by (simp add: new_events_def)
  show ?case
    using ih by (simp add: d e handle_shutdown_ok [OF assms] signal_calls_def)
qed

lemmas check_stock_defs = check_events_def new_events_def check_stock_def check_stock_try_def
  check_stock_except_def Let_def emit_def

lemma check_stock_in_stock:
  assumes "transport_errors_only env" and "chrome c = None" and "fetch c = Page page"
    and "py_in in_stock_marker page"
  shows "check_stock env c s
           = (Inr True, s\<lparr>running := running s \<and> sig_fetch c = [], consecutive_failures := 0,
                           trace := trace s @ check_events env c s\<rparr>)"
    and "calls (check_events env c s) = signal_calls env (sig_fetch c) @ in_stock_calls env"
    and "Log INFO ''Status: In Stock!'' \<in> set (check_events env c s)"
  using assms deliver_signals_ok [OF assms(1), of "sig_fetch c" "emit ChromeStart s"]
  by (simp_all add: check_stock_defs notify_ok in_stock_calls_def)

lemma check_stock_out_of_stock:
  assumes "transport_errors_only env" and "chrome c = None" and "fetch c = Page page"
    and "\<not> py_in in_stock_marker page" and "py_in out_of_stock_marker page"
  shows "check_stock env c s
           = (Inr False, s\<lparr>running := running s \<and> sig_fetch c = [], consecutive_failures := 0,
                            trace := trace s @ check_events env c s\<rparr>)"
    and "calls (check_events env c s) = signal_calls env (sig_fetch c)"
    and "Log INFO ''Status: Out of Stock'' \<in> set (check_events env c s)"
  using assms deliver_signals_ok [OF assms(1), of "sig_fetch c" "emit ChromeStart s"]
  by (simp_all add: check_stock_defs notify_ok)

lemma check_stock_unknown:
  assumes "transport_errors_only env" and "chrome c = None" and "fetch c = Page page"
    and "\<not> py_in in_stock_marker page" and "\<not> py_in out_of_stock_marker page"
  shows "check_stock env c s
           = (Inr False, s\<lparr>running := running s \<and> sig_fetch c = [],
                            consecutive_failures := consecutive_failures s + 1,
                            trace := trace s @ check_events env c s\<rparr>)"
    and "calls (check_events env c s)
           = signal_calls env (sig_fetch c)
             @ (if consecutive_failures s + 1 \<ge> MAX_RETRIES env
                then unknown_calls env (consecutive_failures s + 1) else [])"
    and "Log WARNING (''Status: Unknown (Failure #'' @ str_int (consecutive_failures s + 1) @ '')'')
           \<in> set (check_events env c s)"
  using assms deliver_signals_ok [OF assms(1), of "sig_fetch c" "emit ChromeStart s"]
  by (simp_all add: check_stock_defs notify_ok unknown_calls_def)

lemma check_stock_fetch_error:
  assumes "transport_errors_only env" and "chrome c = None" and "fetch c = FetchRaises e"
    and "caught_by_check_stock e"
  shows "check_stock env c s
           = (Inr False, s\<lparr>running := running s \<and> sig_fetch c = [],
                            consecutive_failures := consecutive_failures s + 1,
                            trace := trace s @ check_events env c s\<rparr>)"
    and "calls (check_events env c s)
           = signal_calls env (sig_fetch c)
             @ (if consecutive_failures s + 1 \<ge> MAX_RETRIES env
                then exception_calls env (consecutive_failures s + 1) e else [])"
    and "Log ERROR (''Checker exception: '' @ exn_str e @ '' (Failure #''
                    @ str_int (consecutive_failures s + 1) @ '')'')
           \<in> set (check_events env c s)"
  using assms deliver_signals_ok [OF assms(1), of "sig_fetch c" "emit ChromeStart s"]
  by (simp_all add: check_stock_defs notify_ok exception_calls_def caught_by_check_stock_def)

lemma check_stock_fetch_uncaught:
  assumes "transport_errors_only env" and "chrome c = None" and "fetch c = FetchRaises e"
    and "\<not> caught_by_check_stock e"
  shows "check_stock env c s
           = (Inl e, s\<lparr>running := running s \<and> sig_fetch c = [],
                        trace := trace s @ check_events env c s\<rparr>)"
    and "calls (check_events env c s) = signal_calls env (sig_fetch c)"
  using assms deliver_signals_ok [OF assms(1), of "sig_fetch c" "emit ChromeStart s"]
  by (simp_all add: check_stock_defs notify_ok caught_by_check_stock_def)

lemma check_stock_chrome_fails:
  assumes "chrome c = Some e"
  shows "check_stock env c s = (Inl e, s\<lparr>trace := trace s @ check_events env c s\<rparr>)"
    and "calls (check_events env c s) = []"
  using assms by (simp_all add: check_stock_defs)

lemma heartbeat_due:
  assumes "transport_errors_only env" and "last_heartbeat s = Some lh"
    and "timedelta_hours (HEARTBEAT_HOURS env) = Some interval"
    and "now_check c - lh > interval"
  shows "heartbeat_if_due env c s
           = (None, s\<lparr>last_heartbeat := Some (now_reset c),
                        trace := trace s @ heartbeat_events env c s\<rparr>)"
    and "calls (heartbeat_events env c s)
           = heartbeat_calls env (now_uptime c - lh) (now_message c)"
  using assms
  by (simp_all add: heartbeat_events_def new_events_def heartbeat_if_due_def send_heartbeat_def
        Let_def notify_ok heartbeat_calls_def heartbeat_message_def)

lemma heartbeat_not_due:
  assumes "last_heartbeat s = Some lh"
    and "timedelta_hours (HEARTBEAT_HOURS env) = Some interval"
    and "\<not> now_check c - lh > interval"
  shows "heartbeat_if_due env c s = (None, s)"
  using assms by (simp add: heartbeat_if_due_def)

lemma sleep_poll_ok:
  assumes "transport_errors_only env" and "sleep_returns env c"
  shows "sleep_poll env c s
           = (None, s\<lparr>running := running s \<and> sig_sleep c = [],
                        trace := trace s @ sleep_events env c s\<rparr>)"
    and "calls (sleep_events env c s) = signal_calls env (sig_sleep c)"
    and "Sleep (POLL_INTERVAL env) \<in> set (sleep_events env c s)"
  using assms deliver_signals_ok [OF assms(1), of "sig_sleep c" "emit (Sleep (POLL_INTERVAL env)) s"]
  by (simp_all add: sleep_events_def new_events_def sleep_poll_def emit_def sleep_returns_def)

section \<open>The outcome of one check cycle\<close>

lemmas marker_defs = in_stock_marker_def out_of_stock_marker_def

lemma failing_cycle_cases:
  assumes "failing_cycle c"
  obtains page where "chrome c = None" "fetch c = Page page"
      "\<not> py_in in_stock_marker page" "\<not> py_in out_of_stock_marker page"
  | e where "chrome c = None" "fetch c = FetchRaises e" "caught_by_check_stock e"
  using assms by (auto simp: failing_cycle_def split: fetch_result.splits)

lemma check_stock_failing:
  assumes "transport_errors_only env" and "failing_cycle c"
  shows "check_stock env c s
           = (Inr False, s\<lparr>running := running s \<and> sig_fetch c = [],
                            consecutive_failures := consecutive_failures s + 1,
                            trace := trace s @ check_events env c s\<rparr>)"
  using assms(2)
  by (rule failing_cycle_cases)
     (simp_all add: check_stock_unknown [OF assms(1)] check_stock_fetch_error [OF assms(1)])

text \<open>
  What \<open>check_stock\<close> does with a failure inside its \<open>try\<close>: a page that holds
  neither marker is logged as \<open>Status: Unknown\<close>, an exception of the fetch that the
  \<open>except\<close> clause names is logged as a checker exception, and both add exactly 1
  to \<open>consecutive_failures\<close> and return \<open>False\<close>.
\<close>

lemma failure_inside_try_increments_counter:
  assumes "transport_errors_only env" and "failing_cycle c"
  shows "fst (check_stock env c s) = Inr False
         \<and> consecutive_failures (snd (check_stock env c s)) = consecutive_failures s + 1
         \<and> (case fetch c of
              Page page \<Rightarrow>
                Log WARNING (''Status: Unknown (Failure #''
                             @ str_int (consecutive_failures s + 1) @ '')'')
                  \<in> set (new_events s (snd (check_stock env c s)))
            | FetchRaises e \<Rightarrow>
                Log ERROR (''Checker exception: '' @ exn_str e @ '' (Failure #''
                           @ str_int (consecutive_failures s + 1) @ '')'')
                  \<in> set (new_events s (snd (check_stock env c s))))"
  using assms(2)
proof (rule failing_cycle_cases)
  fix page
  assume "chrome c = None" "fetch c = Page page"
    "\<not> py_in in_stock_marker page" "\<not> py_in out_of_stock_marker page"
  from check_stock_unknown [OF assms(1) this, of s] \<open>fetch c = Page page\<close>
  show ?thesis unfolding check_events_def [symmetric] by simp
next
  fix e
  assume "chrome c = None" "fetch c = FetchRaises e" "caught_by_check_stock e"
  from check_stock_fetch_error [OF assms(1) this, of s] \<open>fetch c = FetchRaises e\<close>
  show ?thesis unfolding check_events_def [symmetric] by simp
qed

text \<open>
  C9. The claim fails for a driver exception that is raised while the browser is
  created. \<open>webdriver.Chrome\<close> is called before the \<open>try\<close>, so its
  \<open>WebDriverException\<close>, an exception of the class that the \<open>except\<close> clause
  names, is not caught: with the counter at 2 and the threshold 3, \<open>check_stock\<close>
  raises, the counter stays at 2 and nothing is sent. The same exception raised by the
  fetch, inside the \<open>try\<close>, is counted: \<open>check_stock\<close> returns \<open>False\<close>, the
  counter is 3 and the error pair is sent.
\<close>

theorem browser_start_failure_is_not_counted:
  "caught_by_check_stock browser_failure
   \<and> check_stock test_env browser_failure_cycle (started_state\<lparr>consecutive_failures := 2\<rparr>)
       = (Inl browser_failure, emit ChromeStart (started_state\<lparr>consecutive_failures := 2\<rparr>))
   \<and> fst (check_stock test_env (error_cycle browser_failure)
            (started_state\<lparr>consecutive_failures := 2\<rparr>)) = Inr False
   \<and> consecutive_failures (snd (check_stock test_env (error_cycle browser_failure)
            (started_state\<lparr>consecutive_failures := 2\<rparr>))) = 3
   \<and> error_pushes (trace (snd (check_stock test_env (error_cycle browser_failure)
            (started_state\<lparr>consecutive_failures := 2\<rparr>)))) = 1"
  by (simp add: run_defs input_defs caught_by_check_stock_def error_pushes_def)

text \<open>
  C10, as the program has it. With notification channels that raise nothing but
  transport errors, the browser and the fetch decide the result of \<open>check_stock\<close>. An
  exception raised while the browser is created leaves the function. Once the browser
  has been created, \<open>check_stock\<close> returns \<open>True\<close> exactly when the fetch gave a
  page that holds the in-stock marker; it returns \<open>False\<close>, and does not raise, for an
  out-of-stock page, for an unknown page (also on the cycle where the error notification
  is sent) and for a fetch exception that the \<open>except\<close> clause names; a fetch
  exception of any other class leaves the function.
\<close>

theorem check_stock_result:
  assumes "transport_errors_only env"
  shows "fst (check_stock env c s)
           = (case chrome c of
                Some e \<Rightarrow> Inl e
              | None \<Rightarrow>
                  (case fetch c of
                     Page page \<Rightarrow> Inr (py_in in_stock_marker page)
                   | FetchRaises e \<Rightarrow> if caught_by_check_stock e then Inr False else Inl e))"
proof (cases "chrome c")
  case (Some e)
  then show ?thesis by (simp add: check_stock_chrome_fails(1))
next
  case None
  show ?thesis
  proof (cases "fetch c")
    case (FetchRaises e)
    show ?thesis
      using check_stock_fetch_error(1) [OF assms None FetchRaises, of s]
        check_stock_fetch_uncaught(1) [OF assms None FetchRaises, of s] None FetchRaises
      by (cases "caught_by_check_stock e") simp_all
  next
    case (Page page)
    show ?thesis
      using check_stock_in_stock(1) [OF assms None Page, of s]
        check_stock_out_of_stock(1) [OF assms None Page, of s]
        check_stock_unknown(1) [OF assms None Page, of s] None Page
      by (cases "py_in in_stock_marker page"; cases "py_in out_of_stock_marker page") simp_all
  qed
qed

text \<open>
  An in-stock page, an out-of-stock page, an empty page on the cycle that reaches the
  threshold 3, a driver error of the fetch, and a connection error of the fetch that is
  not a driver error.
\<close>

theorem check_stock_result_witness:
  "transport_errors_only test_env
   \<and> fst (check_stock test_env (page_cycle in_stock_marker) initial_state) = Inr True
   \<and> fst (check_stock test_env (page_cycle out_of_stock_marker) initial_state) = Inr False
   \<and> fst (check_stock test_env (page_cycle []) (initial_state\<lparr>consecutive_failures := 2\<rparr>))
       = Inr False
   \<and> fst (check_stock test_env (error_cycle driver_error) initial_state) = Inr False
   \<and> fst (check_stock test_env uncaught_cycle initial_state) = Inl connection_error"
proof -
  note r = check_stock_result [OF test_env_transport]
  from r [of "page_cycle in_stock_marker" initial_state]
    r [of "page_cycle out_of_stock_marker" initial_state]
    r [of "page_cycle []" "initial_state\<lparr>consecutive_failures := 2\<rparr>"]
    r [of "error_cycle driver_error" initial_state]
    r [of uncaught_cycle initial_state]
    test_env_transport
  show ?thesis
    by (simp add: page_cycle_def error_cycle_def uncaught_cycle_def driver_error_def
          connection_error_def caught_by_check_stock_def marker_defs)
qed

text \<open>
  C10 as stated fails: a fetch exception of a class that the \<open>except\<close> clause does
  not name is not turned into \<open>False\<close>; it leaves \<open>check_stock\<close>.
\<close>

theorem uncaught_fetch_exception_leaves_check_stock:
  "fetch uncaught_cycle = FetchRaises connection_error
   \<and> fst (check_stock test_env uncaught_cycle initial_state) = Inl connection_error"
  by (simp add: run_defs input_defs)

text \<open>
  C5. The classification of a page is total and the in-stock marker is tested first: for
  every page text \<open>check_stock\<close> returns a value; a page that holds the in-stock marker
  (with or without the out-of-stock marker) takes the in-stock branch, which logs
  \<open>Status: In Stock!\<close> and returns \<open>True\<close>; a page that holds only the out-of-stock
  marker takes the out-of-stock branch, which logs \<open>Status: Out of Stock\<close>, returns
  \<open>False\<close> and sets the counter to 0, where the unknown branch would add 1.
\<close>

theorem in_stock_marker_takes_precedence:
  assumes "transport_errors_only env" and "chrome c = None" and "fetch c = Page page"
  shows "(py_in in_stock_marker page \<longrightarrow>
            fst (check_stock env c s) = Inr True
            \<and> Log INFO ''Status: In Stock!'' \<in> set (new_events s (snd (check_stock env c s))))
         \<and> (\<not> py_in in_stock_marker page \<and> py_in out_of_stock_marker page \<longrightarrow>
            fst (check_stock env c s) = Inr False
            \<and> Log INFO ''Status: Out of Stock'' \<in> set (new_events s (snd (check_stock env c s)))
            \<and> consecutive_failures (snd (check_stock env c s)) = 0)
         \<and> (\<exists>b. fst (check_stock env c s) = Inr b)"
proof -
  have a: "fst (check_stock env c s) = Inr True
        \<and> Log INFO ''Status: In Stock!'' \<in> set (new_events s (snd (check_stock env c s)))"
    if "py_in in_stock_marker page"
    using check_stock_in_stock [OF assms that, of s]
    unfolding check_events_def [symmetric] by simp
  have b: "fst (check_stock env c s) = Inr False
        \<and> Log INFO ''Status: Out of Stock'' \<in> set (new_events s (snd (check_stock env c s)))
        \<and> consecutive_failures (snd (check_stock env c s)) = 0"
    if "\<not> py_in in_stock_marker page" and "py_in out_of_stock_marker page"
    using check_stock_out_of_stock [OF assms that, of s]
    unfolding check_events_def [symmetric] by simp
  have c: "\<exists>b. fst (check_stock env c s) = Inr b"
    using check_stock_in_stock(1) [OF assms, of s]
      check_stock_out_of_stock(1) [OF assms, of s]
      check_stock_unknown(1) [OF assms, of s]
    by (cases "py_in in_stock_marker page"; cases "py_in out_of_stock_marker page") auto
  from a b c show ?thesis by blast
qed

theorem in_stock_marker_takes_precedence_witness:
  "transport_errors_only test_env
   \<and> chrome (page_cycle both_markers_page) = None
   \<and> fetch (page_cycle both_markers_page) = Page both_markers_page
   \<and> py_in in_stock_marker both_markers_page
   \<and> py_in out_of_stock_marker both_markers_page
   \<and> fst (check_stock test_env (page_cycle both_markers_page) initial_state) = Inr True
   \<and> \<not> py_in in_stock_marker out_of_stock_marker
   \<and> py_in out_of_stock_marker out_of_stock_marker
   \<and> fst (check_stock test_env (page_cycle out_of_stock_marker) initial_state) = Inr False
   \<and> consecutive_failures
        (snd (check_stock test_env (page_cycle out_of_stock_marker)
               (initial_state\<lparr>consecutive_failures := 2\<rparr>))) = 0"
proof -
  have m: "py_in in_stock_marker both_markers_page"
    "py_in out_of_stock_marker both_markers_page"
    "\<not> py_in in_stock_marker out_of_stock_marker"
    "py_in out_of_stock_marker out_of_stock_marker"
    by (simp_all add: both_markers_page_def marker_defs)
  have c: "chrome (page_cycle both_markers_page) = None"
    "fetch (page_cycle both_markers_page) = Page both_markers_page"
    "chrome (page_cycle out_of_stock_marker) = None"
    "fetch (page_cycle out_of_stock_marker) = Page out_of_stock_marker"
    by (simp_all add: page_cycle_def)
  from in_stock_marker_takes_precedence [OF test_env_transport c(1,2), of initial_state]
    in_stock_marker_takes_precedence [OF test_env_transport c(3,4), of initial_state]
    in_stock_marker_takes_precedence [OF test_env_transport c(3,4),
      of "initial_state\<lparr>consecutive_failures := 2\<rparr>"]
    test_env_transport m c
  show ?thesis by simp
qed



section \<open>Runs of failing cycles\<close>

lemma filter_calls:
  assumes "\<And>ev. P ev \<Longrightarrow> is_call ev"
  shows "filter P evs = filter P (calls evs)"
  using assms by (induction evs) auto

lemma error_pushes_calls: "error_pushes evs = error_pushes (calls evs)"
  unfolding error_pushes_def
  by (rule arg_cong [where f = length], rule filter_calls) (erule is_error_push.elims, simp_all)

lemma error_emails_calls: "error_emails evs = error_emails (calls evs)"
  unfolding error_emails_def
  by (rule arg_cong [where f = length], rule filter_calls) (erule is_error_email.elims, simp_all)

lemma error_pushes_append: "error_pushes (xs @ ys) = error_pushes xs + error_pushes ys"
  by (simp add: error_pushes_def)

lemma error_emails_append: "error_emails (xs @ ys) = error_emails xs + error_emails ys"
  by (simp add: error_emails_def)

lemma cycles_at_threshold_0: "cycles_at_threshold m c 0 = 0"
  by (simp add: cycles_at_threshold_def)

lemma cycles_at_threshold_Suc:
  "cycles_at_threshold m c (Suc n) = (if m \<le> c + 1 then 1 else 0) + cycles_at_threshold m (c + 1) n"
proof -
  have "[1..<Suc (Suc n)] = 1 # map Suc [1..<Suc n]"
    by (simp add: upt_conv_Cons map_Suc_upt del: upt_Suc)
  then show ?thesis
    by (simp add: cycles_at_threshold_def filter_map comp_def add.commute add.left_commute del: upt_Suc)
qed

lemma error_count_unknown_calls:
  "error_pushes (unknown_calls env n) = 1" "error_emails (unknown_calls env n) = 1"
  by (simp_all add: unknown_calls_def error_pushes_def error_emails_def)

lemma error_count_exception_calls:
  "error_pushes (exception_calls env n e) = 1" "error_emails (exception_calls env n e) = 1"
  by (simp_all add: exception_calls_def error_pushes_def error_emails_def)

lemma error_count_heartbeat_calls:
  "error_pushes (heartbeat_calls env up now) = 0" "error_emails (heartbeat_calls env up now) = 0"
  by (simp_all add: heartbeat_calls_def error_pushes_def error_emails_def)

lemma error_count_Nil: "error_pushes [] = 0" "error_emails [] = 0"
  by (simp_all add: error_pushes_def error_emails_def)

lemmas error_counts = error_count_unknown_calls error_count_exception_calls
  error_count_heartbeat_calls error_count_Nil

lemma error_count_check_failing:
  assumes t: "transport_errors_only env" and fc: "failing_cycle c" and sf: "sig_fetch c = []"
  shows "error_pushes (check_events env c s)
              = (if MAX_RETRIES env \<le> consecutive_failures s + 1 then 1 else 0)"
    and "error_emails (check_events env c s)
              = (if MAX_RETRIES env \<le> consecutive_failures s + 1 then 1 else 0)"
proof -
  have "calls (check_events env c s)
          = (if MAX_RETRIES env \<le> consecutive_failures s + 1
             then (case fetch c of Page page \<Rightarrow> unknown_calls env (consecutive_failures s + 1)
                   | FetchRaises e \<Rightarrow> exception_calls env (consecutive_failures s + 1) e)
             else [])"
    using fc
    by (rule failing_cycle_cases)
       (simp_all add: check_stock_unknown(2) [OF t] check_stock_fetch_error(2) [OF t] sf
          signal_calls_def)
  then show "error_pushes (check_events env c s)
              = (if MAX_RETRIES env \<le> consecutive_failures s + 1 then 1 else 0)"
    and "error_emails (check_events env c s)
              = (if MAX_RETRIES env \<le> consecutive_failures s + 1 then 1 else 0)"
    by (simp_all add: error_pushes_calls [of "check_events env c s"]
          error_emails_calls [of "check_events env c s"] error_counts split: fetch_result.splits)
qed


lemma heartbeat_step:
  assumes t: "transport_errors_only env" and lh: "last_heartbeat s = Some h"
    and iv: "timedelta_hours (HEARTBEAT_HOURS env) = Some interval"
  shows "\<exists>h'. heartbeat_if_due env c s
            = (None, s\<lparr>last_heartbeat := Some h', trace := trace s @ heartbeat_events env c s\<rparr>)"
    and "calls (heartbeat_events env c s)
           = (if now_check c - h > interval
              then heartbeat_calls env (now_uptime c - h) (now_message c) else [])"
proof -
  have e: "heartbeat_events env c s = []" if "\<not> now_check c - h > interval"
    by (simp add: heartbeat_events_def heartbeat_not_due [OF lh iv that] new_events_def)
  show "\<exists>h'. heartbeat_if_due env c s
            = (None, s\<lparr>last_heartbeat := Some h', trace := trace s @ heartbeat_events env c s\<rparr>)"
  proof (cases "now_check c - h > interval")
    case True
    from heartbeat_due(1) [OF t lh iv True] show ?thesis by blast
  next
    case False
    have "heartbeat_if_due env c s
            = (None, s\<lparr>last_heartbeat := Some h, trace := trace s @ heartbeat_events env c s\<rparr>)"
      using lh by (simp add: heartbeat_not_due [OF lh iv False] e [OF False])
    then show ?thesis by blast
  qed
  show "calls (heartbeat_events env c s)
           = (if now_check c - h > interval
              then heartbeat_calls env (now_uptime c - h) (now_message c) else [])"
    using heartbeat_due(2) [OF t lh iv] e by simp
qed

lemma failing_cycle_step:
  assumes t: "transport_errors_only env" and fc: "failing_cycle c" and sg: "signal_free c"
    and r: "running s" and lh: "last_heartbeat s = Some h"
    and iv: "timedelta_hours (HEARTBEAT_HOURS env) = Some interval"
    and p: "sleep_returns env c"
  shows "\<exists>s3 E h'. main_loop env (c # cs) s = main_loop env cs s3
           \<and> running s3 \<and> last_heartbeat s3 = Some h'
           \<and> consecutive_failures s3 = consecutive_failures s + 1
           \<and> trace s3 = trace s @ E
           \<and> error_pushes E = (if MAX_RETRIES env \<le> consecutive_failures s + 1 then 1 else 0)
           \<and> error_emails E = (if MAX_RETRIES env \<le> consecutive_failures s + 1 then 1 else 0)"
proof -
  from sg have sf: "sig_fetch c = []" and ss: "sig_sleep c = []"
    by (simp_all add: signal_free_def)
  define s1 where "s1 = s\<lparr>consecutive_failures := consecutive_failures s + 1,
               trace := trace s @ check_events env c s\<rparr>"
  have c1: "check_stock env c s = (Inr False, s1)"
    using check_stock_failing [OF t fc, of s] sf r by (simp add: s1_def)
  note e1 = error_count_check_failing [OF t fc sf, of s]
  have l1: "last_heartbeat s1 = Some h" using lh by (simp add: s1_def)
  from heartbeat_step(1) [OF t l1 iv, of c] obtain h' where
    h2: "heartbeat_if_due env c s1
           = (None, s1\<lparr>last_heartbeat := Some h', trace := trace s1 @ heartbeat_events env c s1\<rparr>)"
    by blast
  define s2 where "s2 = s1\<lparr>last_heartbeat := Some h', trace := trace s1 @ heartbeat_events env c s1\<rparr>"
  have e2: "error_pushes (heartbeat_events env c s1) = 0"
    "error_emails (heartbeat_events env c s1) = 0"
    by (simp_all add: error_pushes_calls [of "heartbeat_events env c s1"]
          error_emails_calls [of "heartbeat_events env c s1"] heartbeat_step(2) [OF t l1 iv]
          error_counts)
  define s3 where "s3 = s2\<lparr>trace := trace s2 @ sleep_events env c s2\<rparr>"
  have r2: "running s2" using r by (simp add: s2_def s1_def)
  have sl: "sleep_poll env c s2 = (None, s3)"
    using sleep_poll_ok(1) [OF t p, of s2] ss r2 by (simp add: s3_def)
  have e3: "error_pushes (sleep_events env c s2) = 0" "error_emails (sleep_events env c s2) = 0"
    by (simp_all add: error_pushes_calls [of "sleep_events env c s2"]
          error_emails_calls [of "sleep_events env c s2"] sleep_poll_ok(2) [OF t p] ss
          signal_calls_def error_counts)
  have m: "main_loop env (c # cs) s = main_loop env cs s3"
    using r by (simp add: c1 h2 sl s2_def [symmetric])
  have tr: "trace s3 = trace s @ (check_events env c s @ heartbeat_events env c s1
                    @ sleep_events env c s2)"
    by (simp add: s3_def s2_def s1_def)
  have fl: "running s3" "last_heartbeat s3 = Some h'"
    "consecutive_failures s3 = consecutive_failures s + 1"
    using r by (simp_all add: s3_def s2_def s1_def)
  have cnt: "error_pushes (check_events env c s @ heartbeat_events env c s1
                    @ sleep_events env c s2)
              = (if MAX_RETRIES env \<le> consecutive_failures s + 1 then 1 else 0)"
    "error_emails (check_events env c s @ heartbeat_events env c s1
                    @ sleep_events env c s2)
              = (if MAX_RETRIES env \<le> consecutive_failures s + 1 then 1 else 0)"
    by (simp_all add: error_pushes_append error_emails_append e1 e2 e3)
  from m tr fl cnt show ?thesis by blast
qed

lemma failing_run:
  assumes t: "transport_errors_only env"
    and iv: "timedelta_hours (HEARTBEAT_HOURS env) = Some interval"
  shows "list_all failing_cycle cs \<Longrightarrow> list_all signal_free cs \<Longrightarrow>
         list_all (sleep_returns env) cs \<Longrightarrow> running s \<Longrightarrow> last_heartbeat s = Some h \<Longrightarrow>
         \<exists>s' E. main_loop env cs s = (StillRunning, s')
           \<and> consecutive_failures s' = consecutive_failures s + int (length cs)
           \<and> trace s' = trace s @ E
           \<and> error_pushes E
               = cycles_at_threshold (MAX_RETRIES env) (consecutive_failures s) (length cs)
           \<and> error_emails E
               = cycles_at_threshold (MAX_RETRIES env) (consecutive_failures s) (length cs)"
proof (induction cs arbitrary: s h)
  case Nil
  then show ?case by (simp add: cycles_at_threshold_0 error_count_Nil)
next
  case (Cons c cs)
  from Cons.prems have q: "failing_cycle c" "signal_free c" "sleep_returns env c"
    and qs: "list_all failing_cycle cs" "list_all signal_free cs"
      "list_all (sleep_returns env) cs"
    by simp_all
  from failing_cycle_step [OF t q(1,2) Cons.prems(4,5) iv q(3), of cs]
  obtain s3 E h' where m: "main_loop env (c # cs) s = main_loop env cs s3"
    and r3: "running s3" and l3: "last_heartbeat s3 = Some h'"
    and c3: "consecutive_failures s3 = consecutive_failures s + 1"
    and t3: "trace s3 = trace s @ E"
    and e3: "error_pushes E = (if MAX_RETRIES env \<le> consecutive_failures s + 1 then 1 else 0)"
      "error_emails E = (if MAX_RETRIES env \<le> consecutive_failures s + 1 then 1 else 0)"
    by blast
  from Cons.IH [OF qs r3 l3]
  obtain s' E' where m': "main_loop env cs s3 = (StillRunning, s')"
    and c': "consecutive_failures s' = consecutive_failures s3 + int (length cs)"
    and t': "trace s' = trace s3 @ E'"
    and e': "error_pushes E'
               = cycles_at_threshold (MAX_RETRIES env) (consecutive_failures s3) (length cs)"
      "error_emails E'
               = cycles_at_threshold (MAX_RETRIES env) (consecutive_failures s3) (length cs)"
    by blast
  have "main_loop env (c # cs) s = (StillRunning, s')"
    using m m' by simp
  moreover have "consecutive_failures s' = consecutive_failures s + int (length (c # cs))"
    using c' c3 by simp
  moreover have "trace s' = trace s @ (E @ E')"
    using t' t3 by simp
  moreover have "error_pushes (E @ E')
      = cycles_at_threshold (MAX_RETRIES env) (consecutive_failures s) (length (c # cs))"
    "error_emails (E @ E')
      = cycles_at_threshold (MAX_RETRIES env) (consecutive_failures s) (length (c # cs))"
    using e3 e' c3
    by (simp_all add: error_pushes_append error_emails_append cycles_at_threshold_Suc)
  ultimately show ?case by blast
qed

text \<open>
  C1, as the program has it. Take a run of the main loop in which every check cycle
  fails in a way that \<open>check_stock\<close> handles: the browser has been created, and the
  page holds neither marker or the fetch raises \<open>WebDriverException\<close> or
  \<open>TimeoutError\<close>. Let no signal arrive, and let the heartbeat test and the sleep of
  every cycle return. Then the loop goes on, every cycle adds 1 to
  \<open>consecutive_failures\<close> and the counter is never reset, and the error pushes and
  error emails sent are one for every cycle on which the counter has reached
  \<open>MAX_RETRIES\<close>: none on a cycle before the counter reaches the threshold, one pair
  on the cycle where it reaches it, and one pair again on every failing cycle after that.
\<close>

theorem error_notification_from_threshold_on:
  assumes "transport_errors_only env"
    and "timedelta_hours (HEARTBEAT_HOURS env) \<noteq> None"
    and "list_all failing_cycle cs"
    and "list_all signal_free cs"
    and "list_all (sleep_returns env) cs"
    and "running s" and "last_heartbeat s \<noteq> None"
  shows "fst (main_loop env cs s) = StillRunning
         \<and> consecutive_failures (snd (main_loop env cs s))
             = consecutive_failures s + int (length cs)
         \<and> error_pushes (new_events s (snd (main_loop env cs s)))
             = cycles_at_threshold (MAX_RETRIES env) (consecutive_failures s) (length cs)
         \<and> error_emails (new_events s (snd (main_loop env cs s)))
             = cycles_at_threshold (MAX_RETRIES env) (consecutive_failures s) (length cs)"
proof -
  from assms(2,7) obtain interval h
    where iv: "timedelta_hours (HEARTBEAT_HOURS env) = Some interval"
      and lh: "last_heartbeat s = Some h"
    by blast
  from failing_run [OF assms(1) iv assms(3,4,5,6) lh]
  obtain s' E where "main_loop env cs s = (StillRunning, s')"
    and "consecutive_failures s' = consecutive_failures s + int (length cs)"
    and "trace s' = trace s @ E"
    and "error_pushes E
               = cycles_at_threshold (MAX_RETRIES env) (consecutive_failures s) (length cs)"
    and "error_emails E
               = cycles_at_threshold (MAX_RETRIES env) (consecutive_failures s) (length cs)"
    by blast
  then show ?thesis by (simp add: new_events_def)
qed

lemma unknown_run_cycles:
  "list_all failing_cycle (unknown_run n)" "list_all signal_free (unknown_run n)"
  "list_all (sleep_returns test_env) (unknown_run n)"
  by (simp_all add: unknown_run_def list_all_length failing_cycle_def signal_free_def
        sleep_returns_def page_cycle_def marker_defs test_env_def max_sleep_def)

lemma mixed_run_cycles:
  "list_all failing_cycle mixed_run" "list_all signal_free mixed_run"
  "list_all (sleep_returns test_env) mixed_run"
  by (simp_all add: mixed_run_def failing_cycle_def signal_free_def sleep_returns_def
        page_cycle_def error_cycle_def driver_error_def caught_by_check_stock_def marker_defs
        test_env_def max_sleep_def)

lemma test_env_interval: "timedelta_hours (HEARTBEAT_HOURS test_env) \<noteq> None"
  by (simp add: timedelta_hours_def test_env_def usec_per_day_def Let_def)

text \<open>
  With the threshold 3 of the test fixture: no error pair after two empty pages, one after
  three, two after four; and two after a run of four cycles in which empty pages and
  driver errors of the fetch alternate.
\<close>

theorem error_notification_from_threshold_on_witness:
  "transport_errors_only test_env
   \<and> timedelta_hours (HEARTBEAT_HOURS test_env) \<noteq> None
   \<and> list_all failing_cycle (unknown_run 4) \<and> list_all signal_free (unknown_run 4)
   \<and> list_all (sleep_returns test_env) (unknown_run 4)
   \<and> list_all failing_cycle mixed_run \<and> list_all signal_free mixed_run
   \<and> list_all (sleep_returns test_env) mixed_run
   \<and> running started_state \<and> last_heartbeat started_state \<noteq> None
   \<and> MAX_RETRIES test_env = 3 \<and> consecutive_failures started_state = 0
   \<and> error_pushes (trace (snd (main_loop test_env (unknown_run 2) started_state))) = 0
   \<and> error_emails (trace (snd (main_loop test_env (unknown_run 2) started_state))) = 0
   \<and> error_pushes (trace (snd (main_loop test_env (unknown_run 3) started_state))) = 1
   \<and> error_emails (trace (snd (main_loop test_env (unknown_run 3) started_state))) = 1
   \<and> consecutive_failures (snd (main_loop test_env (unknown_run 3) started_state)) = 3
   \<and> error_pushes (trace (snd (main_loop test_env (unknown_run 4) started_state))) = 2
   \<and> error_emails (trace (snd (main_loop test_env (unknown_run 4) started_state))) = 2
   \<and> consecutive_failures (snd (main_loop test_env (unknown_run 4) started_state)) = 4
   \<and> fst (main_loop test_env (unknown_run 4) started_state) = StillRunning
   \<and> error_pushes (trace (snd (main_loop test_env mixed_run started_state))) = 2
   \<and> error_emails (trace (snd (main_loop test_env mixed_run started_state))) = 2
   \<and> consecutive_failures (snd (main_loop test_env mixed_run started_state)) = 4"
proof -
  have m: "MAX_RETRIES test_env = 3"
    by (simp add: test_env_def)
  have s: "running started_state" "last_heartbeat started_state \<noteq> None"
    "consecutive_failures started_state = 0" "trace started_state = []"
    by (simp_all add: started_state_def initial_state_def)
  have n: "cycles_at_threshold 3 0 2 = 0" "cycles_at_threshold 3 0 3 = 1"
    "cycles_at_threshold 3 0 4 = 2"
    by (simp_all add: cycles_at_threshold_def upt_conv_Cons del: upt_Suc)
  have l: "length (unknown_run 2) = 2" "length (unknown_run 3) = 3" "length (unknown_run 4) = 4"
    "length mixed_run = 4"
    by (simp_all add: unknown_run_def mixed_run_def)
  note w = error_notification_from_threshold_on
             [OF test_env_transport test_env_interval unknown_run_cycles s(1,2)]
  note x = error_notification_from_threshold_on
             [OF test_env_transport test_env_interval mixed_run_cycles s(1,2)]
  from w [of 2] w [of 3] w [of 4] x test_env_transport test_env_interval
    unknown_run_cycles [of 4] mixed_run_cycles s m n l
  show ?thesis by (simp add: new_events_def)
qed

text \<open>
  C1 as stated fails on a failing cycle that \<open>check_stock\<close> does not handle. After
  three empty pages have brought the counter to the threshold 3 and sent one error pair,
  a fourth cycle whose fetch raises an exception of a class that the \<open>except\<close> clause
  does not name sends no error notification: the exception leaves the loop, and the
  counter stays at 3. The same happens when the browser of the fourth cycle does not
  start.
\<close>

theorem failing_cycle_past_threshold_without_notification:
  "fst (main_loop test_env [page_cycle [], page_cycle [], page_cycle [], uncaught_cycle]
          started_state) = Raised connection_error
   \<and> error_pushes (trace (snd (main_loop test_env
         [page_cycle [], page_cycle [], page_cycle [], uncaught_cycle] started_state))) = 1
   \<and> error_emails (trace (snd (main_loop test_env
         [page_cycle [], page_cycle [], page_cycle [], uncaught_cycle] started_state))) = 1
   \<and> consecutive_failures (snd (main_loop test_env
         [page_cycle [], page_cycle [], page_cycle [], uncaught_cycle] started_state)) = 3
   \<and> fst (main_loop test_env [page_cycle [], page_cycle [], page_cycle [], browser_failure_cycle]
          started_state) = Raised browser_failure
   \<and> error_pushes (trace (snd (main_loop test_env
         [page_cycle [], page_cycle [], page_cycle [], browser_failure_cycle] started_state))) = 1
   \<and> consecutive_failures (snd (main_loop test_env
         [page_cycle [], page_cycle [], page_cycle [], browser_failure_cycle] started_state)) = 3"
  by (simp add: run_defs input_defs error_pushes_def error_emails_def)

section \<open>Whole runs\<close>

lemma stopped_calls_only: "filter is_stopped_call evs = filter is_stopped_call (calls evs)"
  by (rule filter_calls) (erule is_stopped_call.elims, simp_all)

lemma no_stopped_in_signal_calls: "filter is_stopped_call (signal_calls env sigs) = []"
  by (induction sigs) (simp_all add: signal_calls_def stopping_calls_def)

lemma no_stopped_in_cycle_calls:
  "filter is_stopped_call (in_stock_calls env) = []"
  "filter is_stopped_call (unknown_calls env n) = []"
  "filter is_stopped_call (exception_calls env n e) = []"
  "filter is_stopped_call (heartbeat_calls env up now) = []"
  "filter is_stopped_call (started_calls env) = []"
  by (simp_all add: in_stock_calls_def unknown_calls_def exception_calls_def heartbeat_calls_def
        started_calls_def)

lemmas no_stopped = no_stopped_in_signal_calls no_stopped_in_cycle_calls

lemma check_stock_trace:
  assumes t: "transport_errors_only env"
  shows "trace (snd (check_stock env c s)) = trace s @ check_events env c s"
    and "filter is_stopped_call (check_events env c s) = []"
proof -
  have "trace (snd (check_stock env c s)) = trace s @ check_events env c s
        \<and> filter is_stopped_call (calls (check_events env c s)) = []"
  proof (cases "chrome c")
    case (Some e)
    then show ?thesis by (simp add: check_stock_chrome_fails)
  next
    case None
    show ?thesis
    proof (cases "fetch c")
      case (FetchRaises e)
      then show ?thesis
        using check_stock_fetch_error(1,2) [OF t None FetchRaises, of s]
          check_stock_fetch_uncaught [OF t None FetchRaises, of s]
        by (cases "caught_by_check_stock e") (simp_all add: no_stopped)
    next
      case (Page page)
      then show ?thesis
        using check_stock_in_stock(1,2) [OF t None Page, of s]
          check_stock_out_of_stock(1,2) [OF t None Page, of s]
          check_stock_unknown(1,2) [OF t None Page, of s]
        by (cases "py_in in_stock_marker page"; cases "py_in out_of_stock_marker page")
           (simp_all add: no_stopped)
    qed
  qed
  then show "trace (snd (check_stock env c s)) = trace s @ check_events env c s"
    and "filter is_stopped_call (check_events env c s) = []"
    by (simp_all add: stopped_calls_only [of "check_events env c s"])
qed

lemma heartbeat_trace:
  assumes t: "transport_errors_only env"
  shows "trace (snd (heartbeat_if_due env c s)) = trace s @ heartbeat_events env c s"
    and "filter is_stopped_call (heartbeat_events env c s) = []"
proof -
  have "trace (snd (heartbeat_if_due env c s)) = trace s @ heartbeat_events env c s
        \<and> filter is_stopped_call (calls (heartbeat_events env c s)) = []"
  proof (cases "last_heartbeat s")
    case None
    then show ?thesis
      by (simp add: heartbeat_if_due_def heartbeat_events_def new_events_def)
  next
    case (Some h)
    show ?thesis
    proof (cases "timedelta_hours (HEARTBEAT_HOURS env)")
      case None
      then show ?thesis
        using Some by (simp add: heartbeat_if_due_def heartbeat_events_def new_events_def)
    next
      case iv: (Some interval)
      from heartbeat_step(1) [OF t Some iv, of c] obtain h' where
        "heartbeat_if_due env c s
           = (None, s\<lparr>last_heartbeat := Some h', trace := trace s @ heartbeat_events env c s\<rparr>)"
        by blast
      then show ?thesis
        by (simp add: heartbeat_step(2) [OF t Some iv] no_stopped)
    qed
  qed
  then show "trace (snd (heartbeat_if_due env c s)) = trace s @ heartbeat_events env c s"
    and "filter is_stopped_call (heartbeat_events env c s) = []"
    by (simp_all add: stopped_calls_only [of "heartbeat_events env c s"])
qed

lemma sleep_trace:
  assumes t: "transport_errors_only env"
  shows "trace (snd (sleep_poll env c s)) = trace s @ sleep_events env c s"
    and "filter is_stopped_call (sleep_events env c s) = []"
proof -
  have "trace (snd (sleep_poll env c s)) = trace s @ sleep_events env c s
        \<and> filter is_stopped_call (calls (sleep_events env c s)) = []"
  proof (cases "sleep_returns env c")
    case True
    from sleep_poll_ok(1,2) [OF t True, of s] show ?thesis
      by (simp add: no_stopped)
  next
    case False
    then show ?thesis
      by (auto simp: sleep_poll_def sleep_events_def new_events_def sleep_returns_def)
  qed
  then show "trace (snd (sleep_poll env c s)) = trace s @ sleep_events env c s"
    and "filter is_stopped_call (sleep_events env c s) = []"
    by (simp_all add: stopped_calls_only [of "sleep_events env c s"])
qed

lemma main_loop_trace:
  assumes t: "transport_errors_only env"
  shows "\<exists>E. trace (snd (main_loop env cs s)) = trace s @ E \<and> filter is_stopped_call E = []"
proof (induction cs arbitrary: s)
  case Nil
  show ?case by simp
next
  case (Cons c cs)
  obtain r1 s1 where c1: "check_stock env c s = (r1, s1)" by fastforce
  obtain r2 s2 where c2: "heartbeat_if_due env c s1 = (r2, s2)" by fastforce
  obtain r3 s3 where c3: "sleep_poll env c s2 = (r3, s3)" by fastforce
  from check_stock_trace [OF t, of c s] c1
  have t1: "trace s1 = trace s @ check_events env c s"
    and f1: "filter is_stopped_call (check_events env c s) = []" by simp_all
  from heartbeat_trace [OF t, of c s1] c2
  have t2: "trace s2 = trace s1 @ heartbeat_events env c s1"
    and f2: "filter is_stopped_call (heartbeat_events env c s1) = []" by simp_all
  from sleep_trace [OF t, of c s2] c3
  have t3: "trace s3 = trace s2 @ sleep_events env c s2"
    and f3: "filter is_stopped_call (sleep_events env c s2) = []" by simp_all
  from Cons.IH [of s3] obtain E where
    t4: "trace (snd (main_loop env cs s3)) = trace s3 @ E" and f4: "filter is_stopped_call E = []"
    by blast
  have s1: "\<exists>E. trace s1 = trace s @ E \<and> filter is_stopped_call E = []"
    using t1 f1 by blast
  have s2: "\<exists>E. trace s2 = trace s @ E \<and> filter is_stopped_call E = []"
    using t1 f1 t2 f2 by simp
  have s3: "\<exists>E. trace s3 = trace s @ E \<and> filter is_stopped_call E = []"
    using t1 f1 t2 f2 t3 f3 by simp
  have s4: "\<exists>E'. trace (snd (main_loop env cs s3)) = trace s @ E' \<and> filter is_stopped_call E' = []"
    using t1 f1 t2 f2 t3 f3 t4 f4 by simp
  show ?case
    using s1 s2 s3 s4
    by (simp add: c1 c2 c3 split: sum.splits bool.splits option.splits)
qed

lemma main_finally_ok:
  assumes "transport_errors_only env"
  shows "main_finally env s = (None, s\<lparr>trace := trace s @ finally_events env s\<rparr>)"
    and "calls (finally_events env s) = stopped_calls env"
  by (simp_all add: finally_events_def new_events_def main_finally_def Let_def emit_def
        notify_ok assms stopped_calls_def)


lemma stopped_calls_kept: "filter is_stopped_call (stopped_calls env) = stopped_calls env"
  by (simp add: stopped_calls_def)

lemma main_startup_ok:
  assumes "transport_errors_only env"
  shows "main_startup env start_time s
           = (None, s\<lparr>last_heartbeat := Some start_time,
                        trace := trace s @ startup_events env start_time s\<rparr>)"
    and "calls (startup_events env start_time s) = started_calls env"
  by (simp_all add: startup_events_def new_events_def main_startup_def Let_def emit_def
        notify_ok assms started_calls_def)

text \<open>
  What \<open>main\<close> adds to the trace of its loop: nothing while the loop is still running,
  and otherwise events of which the calls titled as stopped are the stopped pair.
\<close>

lemma main_after_loop:
  assumes t: "transport_errors_only env"
    and s2: "s2 = s\<lparr>last_heartbeat := Some start_time,
                      trace := trace s @ startup_events env start_time s\<rparr>"
    and ml: "main_loop env cs s2 = (st, s3)"
  shows "\<exists>F. trace (snd (main env start_time cs s)) = trace s3 @ F
           \<and> filter is_stopped_call F = (if st = StillRunning then [] else stopped_calls env)"
    and "fst (main env start_time cs s) = StillRunning \<longleftrightarrow> st = StillRunning"
proof -
  define s3' where "s3' = (case st of
       Raised e \<Rightarrow> if isinstance e KeyboardInterrupt
                   then emit (Log INFO ''Received keyboard interrupt, stopping...'') s3 else s3
     | _ \<Rightarrow> s3)"
  have m: "main env start_time cs s
             = (case st of
                  StillRunning \<Rightarrow> (StillRunning, s3)
                | Exited \<Rightarrow> (Exited, s3'\<lparr>trace := trace s3' @ finally_events env s3'\<rparr>)
                | Raised e \<Rightarrow>
                    (if isinstance e KeyboardInterrupt then Exited else Raised e,
                     s3'\<lparr>trace := trace s3' @ finally_events env s3'\<rparr>))"
    unfolding main_def
    by (simp add: main_startup_ok(1) [OF t] s2 [symmetric] ml main_finally_ok(1) [OF t] s3'_def
          split: loop_status.splits)
  show "fst (main env start_time cs s) = StillRunning \<longleftrightarrow> st = StillRunning"
    by (simp add: m split: loop_status.splits)
  have "\<exists>L. trace s3' = trace s3 @ L \<and> calls L = []"
    by (auto simp: s3'_def emit_def split: loop_status.splits)
  then obtain L where t3': "trace s3' = trace s3 @ L" and cl: "calls L = []"
    by blast
  show "\<exists>F. trace (snd (main env start_time cs s)) = trace s3 @ F
           \<and> filter is_stopped_call F = (if st = StillRunning then [] else stopped_calls env)"
  proof (cases "st = StillRunning")
    case True
    then show ?thesis by (simp add: m)
  next
    case False
    with m have "trace (snd (main env start_time cs s)) = trace s3 @ (L @ finally_events env s3')"
      by (auto simp: t3' split: loop_status.splits)
    moreover have "filter is_stopped_call (L @ finally_events env s3') = stopped_calls env"
      using cl
      by (simp add: stopped_calls_only [of L] stopped_calls_only [of "finally_events env s3'"]
            main_finally_ok(2) [OF t] stopped_calls_kept)
    ultimately show ?thesis using False by auto
  qed
qed

lemma main_stopped_calls:
  assumes t: "transport_errors_only env" and l: "fst (main env start_time cs s) \<noteq> StillRunning"
  shows "filter is_stopped_call (new_events s (snd (main env start_time cs s))) = stopped_calls env"
proof -
  define s2 where "s2 = s\<lparr>last_heartbeat := Some start_time,
                      trace := trace s @ startup_events env start_time s\<rparr>"
  obtain st s3 where ml: "main_loop env cs s2 = (st, s3)" by fastforce
  from main_loop_trace [OF t, of cs s2] ml obtain E where
    t3: "trace s3 = trace s2 @ E" and f3: "filter is_stopped_call E = []"
    by auto
  from main_after_loop [OF t s2_def ml] l obtain F where
    tf: "trace (snd (main env start_time cs s)) = trace s3 @ F"
    and ff: "filter is_stopped_call F = stopped_calls env"
    by auto
  have "new_events s (snd (main env start_time cs s)) = startup_events env start_time s @ E @ F"
    by (simp add: new_events_def tf t3 s2_def)
  then show ?thesis
    by (simp add: f3 ff stopped_calls_only [of "startup_events env start_time s"]
          main_startup_ok(2) [OF t] no_stopped)
qed

text \<open>
  C3, as the program has it. Every run of \<open>main\<close> whose loop ends, by an in-stock
  result, by the shutdown flag or by an exception that leaves the loop, sends the pair
  titled \<open>Service Stopped\<close> exactly once, from the \<open>finally\<close> clause. Every call of
  the signal handler clears \<open>running\<close> and sends one pair titled
  \<open>Service Stopping\<close> of its own. A shutdown by signal is therefore announced by both
  pairs.
\<close>

theorem stopped_pair_once_stopping_pair_per_signal:
  assumes "transport_errors_only env" and "fst (main env start_time cs s) \<noteq> StillRunning"
  shows "filter is_stopped_call (new_events s (snd (main env start_time cs s))) = stopped_calls env
         \<and> \<not> running (snd (handle_shutdown env signum s'))
         \<and> calls (new_events s' (snd (handle_shutdown env signum s'))) = stopping_calls env"
  using main_stopped_calls [OF assms] handle_shutdown_ok [OF assms(1), of signum s']
  unfolding shutdown_events_def [symmetric] by simp

text \<open>
  A run that finds the product in stock at once, a run whose browser does not start, so
  that the exception leaves the loop, and the handler on SIGTERM.
\<close>

theorem stopped_pair_once_stopping_pair_per_signal_witness:
  "transport_errors_only test_env
   \<and> fst (main test_env 0 [page_cycle in_stock_marker] initial_state) = Exited
   \<and> filter is_stopped_call (trace (snd (main test_env 0 [page_cycle in_stock_marker] initial_state)))
       = stopped_calls test_env
   \<and> fst (main test_env 0 [crash_cycle] initial_state)
       = Raised (Exn OtherError ''chromedriver not found'')
   \<and> filter is_stopped_call (trace (snd (main test_env 0 [crash_cycle] initial_state)))
       = stopped_calls test_env
   \<and> \<not> running (snd (handle_shutdown test_env 15 initial_state))
   \<and> calls (trace (snd (handle_shutdown test_env 15 initial_state))) = stopping_calls test_env"
proof -
  have h: "fst (main test_env 0 [page_cycle in_stock_marker] initial_state) = Exited"
    by (simp add: run_defs input_defs)
  have k: "fst (main test_env 0 [crash_cycle] initial_state)
             = Raised (Exn OtherError ''chromedriver not found'')"
    by (simp add: run_defs input_defs)
  have e: "trace initial_state = []"
    by (simp add: initial_state_def)
  have h': "fst (main test_env 0 [page_cycle in_stock_marker] initial_state) \<noteq> StillRunning"
    and k': "fst (main test_env 0 [crash_cycle] initial_state) \<noteq> StillRunning"
    by (simp_all add: h k)
  from stopped_pair_once_stopping_pair_per_signal [OF test_env_transport h', of 15 initial_state]
    stopped_pair_once_stopping_pair_per_signal [OF test_env_transport k', of 15 initial_state]
    test_env_transport h k
  show ?thesis by (simp add: new_events_def e)
qed

text \<open>
  C3 as stated fails: when SIGTERM arrives during the first check, the run sends the
  stopping pair of the handler and then the stopped pair of \<open>main\<close>, four stop
  notifications in all.
\<close>

theorem signal_shutdown_sends_two_stop_pairs:
  "fst (main test_env 0 [sigterm_cycle] initial_state) = Exited
   \<and> filter is_stop_call (trace (snd (main test_env 0 [sigterm_cycle] initial_state)))
       = stopping_calls test_env @ stopped_calls test_env
   \<and> length (stopping_calls test_env @ stopped_calls test_env) = 4"
  by (simp add: run_defs input_defs stopping_calls_def stopped_calls_def)

text \<open>
  C4. \<open>send_heartbeat\<close> reports the time since \<open>last_heartbeat\<close>, which every
  heartbeat resets. With a heartbeat due every 24 hours and checks 25 and 50 hours after
  the start, both heartbeats report an uptime of 1 day and 1 hour, although the loop has
  been running for 2 days and 2 hours at the second.
\<close>

theorem heartbeat_uptime_is_time_since_last_heartbeat:
  "filter is_heartbeat_push
     (trace (snd (main test_env 0 [heartbeat_cycle (hours 25), heartbeat_cycle (hours 50)]
                   initial_state)))
   = [PushCall (''Microcenter Stock Checker service is running normally.\<newline>''
                @ ''Uptime: 1 days, 1 hours\<newline>'' @ ''Last check: 2025-01-01 00:00:00'')
        ''Service Heartbeat'' (Some ''http://test.url''),
      PushCall (''Microcenter Stock Checker service is running normally.\<newline>''
                @ ''Uptime: 1 days, 1 hours\<newline>'' @ ''Last check: 2025-01-01 00:00:00'')
        ''Service Heartbeat'' (Some ''http://test.url'')]
   \<and> td_days (hours 50 - 0) = 2 \<and> td_seconds (hours 50 - 0) div 3600 = 2"
  by (simp add: run_defs input_defs heartbeat_cycle_def hours_def)

section \<open>Shutdown and the loop test\<close>

lemma main_loop_stopped_flag: "\<not> running s \<Longrightarrow> main_loop env cs s = (Exited, s)"
  by (cases cs) simp_all

lemma check_stock_running:
  assumes t: "transport_errors_only env" and c: "check_stock env c s = (Inr b, s1)"
  shows "running s1 = (running s \<and> sig_fetch c = [])"
proof (cases "chrome c")
  case (Some e)
  with c show ?thesis by (simp add: check_stock_chrome_fails)
next
  case None
  show ?thesis
  proof (cases "fetch c")
    case (FetchRaises e)
    then show ?thesis
      using check_stock_fetch_error(1) [OF t None FetchRaises, of s]
        check_stock_fetch_uncaught(1) [OF t None FetchRaises, of s] c
      by (cases "caught_by_check_stock e") auto
  next
    case (Page page)
    then show ?thesis
      using check_stock_in_stock(1) [OF t None Page, of s]
        check_stock_out_of_stock(1) [OF t None Page, of s]
        check_stock_unknown(1) [OF t None Page, of s] c
      by (cases "py_in in_stock_marker page"; cases "py_in out_of_stock_marker page") auto
  qed
qed

lemma heartbeat_running:
  assumes t: "transport_errors_only env" and c: "heartbeat_if_due env c s = (None, s1)"
  shows "running s1 = running s"
proof (cases "last_heartbeat s")
  case None
  with c show ?thesis by (simp add: heartbeat_if_due_def)
next
  case (Some h)
  show ?thesis
  proof (cases "timedelta_hours (HEARTBEAT_HOURS env)")
    case None
    with c Some show ?thesis by (simp add: heartbeat_if_due_def)
  next
    case iv: (Some interval)
    from heartbeat_step(1) [OF t Some iv, of c] c show ?thesis by auto
  qed
qed

lemma sleep_running:
  assumes t: "transport_errors_only env" and c: "sleep_poll env c s = (None, s1)"
  shows "running s1 = (running s \<and> sig_sleep c = [])"
proof (cases "sleep_returns env c")
  case True
  from sleep_poll_ok(1) [OF t True, of s] c show ?thesis by auto
next
  case False
  with c show ?thesis
    by (auto simp: sleep_poll_def sleep_returns_def split: if_splits option.splits)
qed

lemma signal_ends_loop:
  assumes t: "transport_errors_only env" and r: "running s"
    and sg: "sig_fetch c \<noteq> [] \<or> sig_sleep c \<noteq> []"
  shows "main_loop env (c # cs) s = main_loop env [c] s"
    and "fst (main_loop env [c] s) \<noteq> StillRunning"
proof -
  obtain r1 s1 where c1: "check_stock env c s = (r1, s1)" by fastforce
  obtain r2 s2 where c2: "heartbeat_if_due env c s1 = (r2, s2)" by fastforce
  obtain r3 s3 where c3: "sleep_poll env c s2 = (r3, s3)" by fastforce
  have n: "\<not> running s3" if "r1 = Inr False" "r2 = None" "r3 = None"
    using check_stock_running [OF t, of c s False s1] heartbeat_running [OF t, of c s1 s2]
      sleep_running [OF t, of c s2 s3] c1 c2 c3 that sg
    by auto
  show "main_loop env (c # cs) s = main_loop env [c] s"
    using r n
    by (auto simp: c1 c2 c3 main_loop_stopped_flag split: sum.splits bool.splits option.splits)
  show "fst (main_loop env [c] s) \<noteq> StillRunning"
    using r n
    by (auto simp: c1 c2 c3 split: sum.splits bool.splits option.splits)
qed

lemma signal_during_check_then_sleep:
  assumes t: "transport_errors_only env" and r: "running s" and sg: "sig_fetch c \<noteq> []"
    and c1: "fst (check_stock env c s) = Inr False"
    and c2: "fst (heartbeat_if_due env c (snd (check_stock env c s))) = None"
    and c3: "fst (sleep_poll env c (snd (heartbeat_if_due env c (snd (check_stock env c s)))))
               = None"
  shows "\<not> running (snd (check_stock env c s))"
    and "fst (main_loop env (c # cs) s) = Exited"
    and "Sleep (POLL_INTERVAL env)
           \<in> set (new_events (snd (check_stock env c s)) (snd (main_loop env (c # cs) s)))"
proof -
  define s1 where "s1 = snd (check_stock env c s)"
  define s2 where "s2 = snd (heartbeat_if_due env c s1)"
  define s3 where "s3 = snd (sleep_poll env c s2)"
  have k1: "check_stock env c s = (Inr False, s1)"
    using c1 by (simp add: s1_def prod_eq_iff)
  have k2: "heartbeat_if_due env c s1 = (None, s2)"
    using c2 by (simp add: s2_def s1_def prod_eq_iff)
  have k3: "sleep_poll env c s2 = (None, s3)"
    using c3 by (simp add: s3_def s2_def s1_def prod_eq_iff)
  have n1: "\<not> running s1"
    using check_stock_running [OF t k1] sg by simp
  have n3: "\<not> running s3"
    using heartbeat_running [OF t k2] sleep_running [OF t k3] n1 by simp
  have m: "main_loop env (c # cs) s = (Exited, s3)"
    using r n3 by (simp add: k1 k2 k3 main_loop_stopped_flag)
  have sr: "sleep_returns env c"
    using k3 by (auto simp: sleep_poll_def sleep_returns_def split: if_splits option.splits)
  have t2: "trace s2 = trace s1 @ heartbeat_events env c s1"
    using heartbeat_trace(1) [OF t, of c s1] by (simp add: s2_def)
  have t3: "trace s3 = trace s2 @ sleep_events env c s2"
    using sleep_trace(1) [OF t, of c s2] by (simp add: s3_def)
  show "\<not> running (snd (check_stock env c s))"
    using n1 by (simp add: s1_def)
  show "fst (main_loop env (c # cs) s) = Exited"
    unfolding m by simp
  show "Sleep (POLL_INTERVAL env)
           \<in> set (new_events (snd (check_stock env c s)) (snd (main_loop env (c # cs) s)))"
    unfolding m s1_def [symmetric]
    using sleep_poll_ok(3) [OF t sr, of s2]
    by (simp add: new_events_def t3 t2)
qed

text \<open>
  C7, as the program has it. The loop tests \<open>running\<close> only at the top of an
  iteration. Once the flag is false the loop ends at that test: it starts no check cycle
  and does not sleep. When a signal arrives during an iteration, while the page is
  fetched or during the sleep, that iteration is the last one: whatever cycles would
  follow, the loop ends as it does when none follows. But the iteration runs to its end:
  when the signal arrives during a check that returns \<open>False\<close>, the flag is false when
  \<open>check_stock\<close> returns, and if the heartbeat test and the sleep return, the loop
  still sleeps for the poll interval after the check and only then ends.
\<close>

theorem cleared_flag_ends_loop_at_next_test:
  "(\<not> running s \<longrightarrow> main_loop env cs s = (Exited, s))
   \<and> (transport_errors_only env \<and> running s \<and> (sig_fetch c \<noteq> [] \<or> sig_sleep c \<noteq> []) \<longrightarrow>
        main_loop env (c # cs) s = main_loop env [c] s
        \<and> fst (main_loop env [c] s) \<noteq> StillRunning)
   \<and> (transport_errors_only env \<and> running s \<and> sig_fetch c \<noteq> []
        \<and> fst (check_stock env c s) = Inr False
        \<and> fst (heartbeat_if_due env c (snd (check_stock env c s))) = None
        \<and> fst (sleep_poll env c (snd (heartbeat_if_due env c (snd (check_stock env c s)))))
            = None \<longrightarrow>
        \<not> running (snd (check_stock env c s))
        \<and> fst (main_loop env (c # cs) s) = Exited
        \<and> Sleep (POLL_INTERVAL env)
            \<in> set (new_events (snd (check_stock env c s)) (snd (main_loop env (c # cs) s))))"
  using main_loop_stopped_flag [of s env cs] signal_ends_loop(1) [of env s c cs]
    signal_ends_loop(2) [of env s c] signal_during_check_then_sleep(1) [of env s c]
    signal_during_check_then_sleep(2,3) [of env s c cs]
  by blast

text \<open>
  With the flag already cleared three pending cycles are not run. With SIGTERM during
  the first fetch, which gives an unknown page, the three cycles after it are not run,
  and the loop sleeps for 60 seconds after the check has returned with the flag cleared.
\<close>

theorem cleared_flag_ends_loop_at_next_test_witness:
  "\<not> running (started_state\<lparr>running := False\<rparr>)
   \<and> main_loop test_env (unknown_run 3) (started_state\<lparr>running := False\<rparr>)
       = (Exited, started_state\<lparr>running := False\<rparr>)
   \<and> transport_errors_only test_env \<and> running started_state
   \<and> sig_fetch sigterm_cycle \<noteq> []
   \<and> fst (check_stock test_env sigterm_cycle started_state) = Inr False
   \<and> fst (heartbeat_if_due test_env sigterm_cycle
            (snd (check_stock test_env sigterm_cycle started_state))) = None
   \<and> fst (sleep_poll test_env sigterm_cycle
            (snd (heartbeat_if_due test_env sigterm_cycle
                   (snd (check_stock test_env sigterm_cycle started_state))))) = None
   \<and> main_loop test_env (sigterm_cycle # unknown_run 3) started_state
       = main_loop test_env [sigterm_cycle] started_state
   \<and> fst (main_loop test_env [sigterm_cycle] started_state) \<noteq> StillRunning
   \<and> \<not> running (snd (check_stock test_env sigterm_cycle started_state))
   \<and> fst (main_loop test_env (sigterm_cycle # unknown_run 3) started_state) = Exited
   \<and> Sleep 60 \<in> set (new_events (snd (check_stock test_env sigterm_cycle started_state))
                        (snd (main_loop test_env (sigterm_cycle # unknown_run 3) started_state)))"
proof -
  have a: "\<not> running (started_state\<lparr>running := False\<rparr>)" "running started_state"
    "sig_fetch sigterm_cycle \<noteq> []" "POLL_INTERVAL test_env = 60"
    by (simp_all add: started_state_def initial_state_def sigterm_cycle_def test_env_def)
  have b: "fst (check_stock test_env sigterm_cycle started_state) = Inr False"
    by (simp add: run_defs input_defs)
  have c: "fst (heartbeat_if_due test_env sigterm_cycle
            (snd (check_stock test_env sigterm_cycle started_state))) = None"
    by (simp add: run_defs input_defs)
  have d: "fst (sleep_poll test_env sigterm_cycle
            (snd (heartbeat_if_due test_env sigterm_cycle
                   (snd (check_stock test_env sigterm_cycle started_state))))) = None"
    by (simp add: run_defs input_defs)
  from cleared_flag_ends_loop_at_next_test
         [of "started_state\<lparr>running := False\<rparr>" test_env "unknown_run 3"]
    cleared_flag_ends_loop_at_next_test
         [of started_state test_env "unknown_run 3" sigterm_cycle]
    a b c d test_env_transport
  show ?thesis by (auto simp del: main_loop.simps)
qed

text \<open>
  C7 as stated fails: when SIGTERM arrives while the page is fetched, the handler
  clears \<open>running\<close>, and the iteration still sleeps for the poll interval before the
  loop tests the flag.
\<close>

theorem signal_during_check_is_followed_by_sleep:
  "fst (main_loop test_env [sigterm_cycle] started_state) = Exited
   \<and> \<not> running (snd (main_loop test_env [sigterm_cycle] started_state))
   \<and> Sleep 60 \<in> set (after_stop_call
                       (trace (snd (main_loop test_env [sigterm_cycle] started_state))))"
  by (simp add: run_defs input_defs)

section \<open>A missing target URL\<close>

lemma check_events_start:
  assumes t: "transport_errors_only env"
  shows "ChromeStart \<in> set (check_events env c s)"
proof (cases "chrome c")
  case (Some e)
  then show ?thesis by (simp add: check_stock_defs)
next
  case None
  note d = deliver_signals_ok [OF t, of "sig_fetch c" "emit ChromeStart s"]
  show ?thesis
  proof (cases "fetch c")
    case (FetchRaises e)
    with None d show ?thesis
      by (cases "caught_by_check_stock e")
         (simp_all add: check_stock_defs notify_ok t caught_by_check_stock_def)
  next
    case (Page page)
    with None d show ?thesis
      by (cases "py_in in_stock_marker page"; cases "py_in out_of_stock_marker page")
         (simp_all add: check_stock_defs notify_ok t)
  qed
qed

lemma main_loop_first_check:
  assumes t: "transport_errors_only env" and r: "running s"
  shows "\<exists>E. trace (snd (main_loop env (c # cs) s)) = trace s @ check_events env c s @ E"
proof -
  obtain r1 s1 where c1: "check_stock env c s = (r1, s1)" by fastforce
  obtain r2 s2 where c2: "heartbeat_if_due env c s1 = (r2, s2)" by fastforce
  obtain r3 s3 where c3: "sleep_poll env c s2 = (r3, s3)" by fastforce
  from check_stock_trace(1) [OF t, of c s] c1
  have t1: "trace s1 = trace s @ check_events env c s" by simp
  from heartbeat_trace(1) [OF t, of c s1] c2
  have t2: "trace s2 = trace s1 @ heartbeat_events env c s1" by simp
  from sleep_trace(1) [OF t, of c s2] c3
  have t3: "trace s3 = trace s2 @ sleep_events env c s2" by simp
  from main_loop_trace [OF t, of cs s3] obtain E where
    t4: "trace (snd (main_loop env cs s3)) = trace s3 @ E"
    by blast
  show ?thesis
    using r t1 t2 t3 t4
    by (simp add: c1 c2 c3 split: sum.splits bool.splits option.splits)
qed

lemma main_enters_loop:
  assumes t: "transport_errors_only env" and r: "running s"
  shows "ChromeStart \<in> set (new_events s (snd (main env start_time (c # cs) s)))"
    and "take 2 (calls (new_events s (snd (main env start_time (c # cs) s)))) = started_calls env"
proof -
  define s2 where "s2 = s\<lparr>last_heartbeat := Some start_time,
                      trace := trace s @ startup_events env start_time s\<rparr>"
  obtain st s3 where ml: "main_loop env (c # cs) s2 = (st, s3)" by fastforce
  have r2: "running s2" using r by (simp add: s2_def)
  from main_loop_first_check [OF t r2, of c cs] ml obtain E where
    t3: "trace s3 = trace s2 @ check_events env c s2 @ E"
    by auto
  from main_after_loop(1) [OF t s2_def ml] obtain F where
    tf: "trace (snd (main env start_time (c # cs) s)) = trace s3 @ F"
    by blast
  have n: "new_events s (snd (main env start_time (c # cs) s))
          = startup_events env start_time s @ check_events env c s2 @ E @ F"
    by (simp add: new_events_def tf t3 s2_def)
  show "ChromeStart \<in> set (new_events s (snd (main env start_time (c # cs) s)))"
    by (simp add: n check_events_start [OF t])
  have "length (started_calls env) = 2"
    by (simp add: started_calls_def)
  then show "take 2 (calls (new_events s (snd (main env start_time (c # cs) s))))
               = started_calls env"
    by (simp add: n main_startup_ok(2) [OF t])
qed

text \<open>
  C6, as the program has it. A missing target URL does not end the process: \<open>main\<close>
  sends the startup pair without a URL and starts the first check cycle like with any
  configuration. The errors that the program survives are the fetch errors that
  \<open>check_stock\<close> catches, after which the check returns, and the transport errors of
  the two notification channels.
\<close>

theorem missing_url_is_not_fatal:
  assumes "transport_errors_only env" and "PRODUCT_URL env = None" and "running s"
  shows "take 2 (calls (new_events s (snd (main env start_time (c # cs) s))))
           = [PushCall (''Microcenter Stock Checker service has started successfully.\<newline>''
                        @ ''Click to view the monitored product.'')
                ''Service Started'' None,
              EmailCall ''Microcenter Stock Checker Service Started''
                (''The Microcenter Stock Checker service has started successfully.\<newline>''
                 @ ''Monitoring the following product:'')
                None]
         \<and> ChromeStart \<in> set (new_events s (snd (main env start_time (c # cs) s)))
         \<and> (fetch_handled c' \<longrightarrow> (\<exists>b. fst (check_stock env c' s') = Inr b))
         \<and> fst (send_push env m t u s') = None \<and> fst (send_email env sj b u s') = None"
proof -
  have "\<exists>b. fst (check_stock env c' s') = Inr b" if h: "fetch_handled c'"
  proof (cases "fetch c'")
    case (FetchRaises e)
    with h have "chrome c' = None" "caught_by_check_stock e"
      by (simp_all add: fetch_handled_def)
    from check_stock_fetch_error(1) [OF assms(1) this(1) FetchRaises this(2), of s']
    show ?thesis by auto
  next
    case (Page page)
    with h have ch: "chrome c' = None"
      by (simp add: fetch_handled_def)
    show ?thesis
      using check_stock_in_stock(1) [OF assms(1) ch Page, of s']
        check_stock_out_of_stock(1) [OF assms(1) ch Page, of s']
        check_stock_unknown(1) [OF assms(1) ch Page, of s']
      by (cases "py_in in_stock_marker page"; cases "py_in out_of_stock_marker page") auto
  qed
  moreover have "started_calls env
           = [PushCall (''Microcenter Stock Checker service has started successfully.\<newline>''
                        @ ''Click to view the monitored product.'')
                ''Service Started'' None,
              EmailCall ''Microcenter Stock Checker Service Started''
                (''The Microcenter Stock Checker service has started successfully.\<newline>''
                 @ ''Monitoring the following product:'')
                None]"
    by (simp add: started_calls_def assms(2))
  ultimately show ?thesis
    using main_enters_loop [OF assms(1,3), of start_time c cs]
      send_push_returns [OF assms(1), of m t u s'] send_email_returns [OF assms(1), of sj b u s']
    by simp
qed

lemma no_url_env_transport: "transport_errors_only no_url_env"
  by (simp add: transport_errors_only_def no_url_env_def test_env_def)

text \<open>The test environment without a target URL, and a first cycle whose fetch fails.\<close>

theorem missing_url_is_not_fatal_witness:
  "transport_errors_only no_url_env \<and> PRODUCT_URL no_url_env = None \<and> running initial_state
   \<and> take 2 (calls (trace (snd (main no_url_env 0 [error_cycle driver_error] initial_state))))
       = [PushCall (''Microcenter Stock Checker service has started successfully.\<newline>''
                    @ ''Click to view the monitored product.'')
            ''Service Started'' None,
          EmailCall ''Microcenter Stock Checker Service Started''
            (''The Microcenter Stock Checker service has started successfully.\<newline>''
             @ ''Monitoring the following product:'')
            None]
   \<and> ChromeStart \<in> set (trace (snd (main no_url_env 0 [error_cycle driver_error] initial_state)))
   \<and> fetch_handled (error_cycle driver_error)
   \<and> fst (check_stock no_url_env (error_cycle driver_error) initial_state) = Inr False
   \<and> fst (send_push no_url_env ''msg'' ''title'' None initial_state) = None
   \<and> fst (send_email no_url_env ''subj'' ''body'' None initial_state) = None"
proof -
  have a: "PRODUCT_URL no_url_env = None" "running initial_state" "trace initial_state = []"
    by (simp_all add: no_url_env_def initial_state_def)
  have h: "fetch_handled (error_cycle driver_error)"
    by (simp add: fetch_handled_def error_cycle_def page_cycle_def driver_error_def
          caught_by_check_stock_def)
  from missing_url_is_not_fatal [OF no_url_env_transport a(1,2),
         of 0 "error_cycle driver_error" "[]" "error_cycle driver_error" initial_state
            "''msg''" "''title''" None "''subj''" "''body''"]
    check_stock_fetch_error(1) [OF no_url_env_transport, of "error_cycle driver_error"
      driver_error initial_state]
    no_url_env_transport a h
  show ?thesis
    by (simp add: new_events_def error_cycle_def page_cycle_def driver_error_def
          caught_by_check_stock_def)
qed

text \<open>
  C6 as stated fails: without a target URL \<open>main\<close> runs the first check cycle and
  sleeps, and the loop is still running afterwards.
\<close>

theorem missing_url_enters_loop:
  "PRODUCT_URL no_url_env = None
   \<and> fst (main no_url_env 0 [page_cycle ''<html></html>''] initial_state) = StillRunning
   \<and> ChromeStart \<in> set (trace (snd (main no_url_env 0 [page_cycle ''<html></html>''] initial_state)))
   \<and> Sleep 60 \<in> set (trace (snd (main no_url_env 0 [page_cycle ''<html></html>''] initial_state)))"
  by (simp add: run_defs input_defs)

end
